theory Spec2Isabelle
  imports Complex_Main "HOL-Library.AList"
begin

section \<open>Python values used by \<open>niftynet/io/image_reader.py\<close>\<close>

text \<open>
  Exceptions are values. Only the classes that the module raises itself, or that the
  built-ins it calls raise on the inputs modelled here, are listed; \<open>OtherError\<close>
  stands for whatever a preprocessing layer raises.
\<close>

datatype py_exc =
    ValueError | TypeError | IOError | RuntimeError | KeyError | IndexError
  | AttributeError | OtherError string

text \<open>
  The \<open>idx\<close> argument of \<open>layer_op\<close> is dynamically typed. \<open>PyObject out\<close> is
  any object other than \<open>None\<close>, an \<open>int\<close> or a \<open>str\<close>, described by what the
  built-in \<open>int()\<close> does on it: a list gives \<open>Inl TypeError\<close>, \<open>True\<close> gives
  \<open>Inr 1\<close>, a NaN gives \<open>Inl ValueError\<close>.
\<close>

datatype py_value = PyNone | PyInt int | PyStr string | PyObject "py_exc + int"

definition is_space :: "char \<Rightarrow> bool" where
  "is_space c = (c \<in> {CHR '' '', CHR 0x09, CHR 0x0A, CHR 0x0B, CHR 0x0C, CHR 0x0D})"

definition is_digit :: "char \<Rightarrow> bool" where
  "is_digit c = (48 \<le> (of_char c :: nat) \<and> (of_char c :: nat) \<le> 57)"

definition strip :: "string \<Rightarrow> string" where
  "strip s = rev (dropWhile is_space (rev (dropWhile is_space s)))"

fun split_on :: "char \<Rightarrow> string \<Rightarrow> string list" where
  "split_on sep [] = [[]]"
| "split_on sep (c # cs) =
     (if c = sep then [] # split_on sep cs
      else (case split_on sep cs of [] \<Rightarrow> [[c]] | g # gs \<Rightarrow> (c # g) # gs))"

definition digits_value :: "string \<Rightarrow> int" where
  "digits_value ds = foldl (\<lambda>a c. 10 * a + (of_char c - 48)) 0 ds"

text \<open>
  \<open>int(s)\<close> for a \<open>str\<close> in base 10: surrounding white space is dropped, one sign
  is allowed, then decimal digits, where single underscores may separate digit groups
  (Python 3.6 and later). Anything else raises \<open>ValueError\<close>. Strings are byte
  strings here, so only ASCII digits and ASCII white space are covered.
\<close>

definition int_of_str :: "string \<Rightarrow> py_exc + int" where
  "int_of_str s =
     (let t = strip s;
          (neg, body) = (case t of
               c # cs \<Rightarrow> if c = CHR ''-'' then (True, cs)
                         else if c = CHR ''+'' then (False, cs) else (False, t)
             | [] \<Rightarrow> (False, t));
          groups = split_on CHR ''_'' body
      in if list_all (\<lambda>g. g \<noteq> [] \<and> list_all is_digit g) groups
         then Inr ((if neg then -1 else 1) * digits_value (concat groups))
         else Inl ValueError)"

fun py_int :: "py_value \<Rightarrow> py_exc + int" where
  "py_int PyNone = Inl TypeError"
| "py_int (PyInt i) = Inr i"
| "py_int (PyStr s) = int_of_str s"
| "py_int (PyObject out) = out"

text \<open>
  A \<open>dict\<close> is an association list in insertion order. \<open>d[k] = v\<close> is
  \<open>AList.update k v d\<close>: an existing key keeps its place and takes the new value, a
  new key goes last. A comprehension \<open>{key(x): val(x) for x in xs}\<close> stores the
  entries one after the other.
\<close>

type_synonym ('k, 'v) dict = "('k \<times> 'v) list"

definition dict_comp :: "('x \<Rightarrow> 'k \<times> 'v) \<Rightarrow> 'x list \<Rightarrow> ('k, 'v) dict" where
  "dict_comp f xs = foldl (\<lambda>d x. AList.update (fst (f x)) (snd (f x)) d) [] xs"

definition dict_keys :: "('k, 'v) dict \<Rightarrow> 'k set" where
  "dict_keys d = fst ` set d"

definition dict_getitem :: "('k, 'v) dict \<Rightarrow> 'k \<Rightarrow> py_exc + 'v" where
  "dict_getitem d k = (case map_of d k of None \<Rightarrow> Inl KeyError | Some v \<Rightarrow> Inr v)"

text \<open>\<open>len(x)\<close> where \<open>x\<close> may still be \<open>None\<close>.\<close>

definition py_len :: "'x list option \<Rightarrow> py_exc + nat" where
  "py_len x = (case x of None \<Rightarrow> Inl TypeError | Some xs \<Rightarrow> Inr (length xs))"

text \<open>
  The state of \<open>numpy.random\<close> is a supply of raw draws. \<open>np.random.randint(n)\<close>
  raises \<open>ValueError\<close> for an empty range and otherwise takes the next draw into
  \<open>[0, n)\<close>.
\<close>

type_synonym rng = "nat \<Rightarrow> nat"

definition randint :: "nat \<Rightarrow> rng \<Rightarrow> py_exc + (int \<times> rng)" where
  "randint n g =
     (if n = 0 then Inl ValueError else Inr (int (g 0 mod n), \<lambda>k. g (Suc k)))"

section \<open>Images, layers and the reader object\<close>

text \<open>
  An image handle is built by the external \<open>ImageFactory\<close>; the reader uses its
  \<open>get_data()\<close>, \<open>shape\<close>, \<open>dtype\<close> (one numpy kind character per modality) and
  \<open>interp_order\<close>.
\<close>

record 'a image =
  get_data :: 'a
  shape :: "nat list"
  dtype :: "char list"
  interp_order :: "int list"

type_synonym 'a image_dict = "(string, 'a image) dict"
type_synonym 'a data_dict = "(string, 'a) dict"
type_synonym interp_dict = "(string, int list) dict"

text \<open>
  Preprocessing layers are external objects. A \<open>RandomisedLayer\<close> carries its
  random parameters, \<open>randomise()\<close> (which redraws them from the random state) and
  its call on \<open>(image_data_dict, interp_order_dict)\<close>. Every other layer is called
  on \<open>(image_data_dict, mask)\<close> and returns both; a \<open>DataDependentLayer\<close> also
  carries the parameters that \<open>train(image_list)\<close> fits. A call may raise.
\<close>

datatype ('a, 'm, 'p) layer =
    Layer "'a data_dict \<Rightarrow> 'm option \<Rightarrow> py_exc + ('a data_dict \<times> 'm option)"
  | DataDependentLayer 'p "'a image_dict list option \<Rightarrow> 'p \<Rightarrow> 'p"
      "'p \<Rightarrow> 'a data_dict \<Rightarrow> 'm option \<Rightarrow> py_exc + ('a data_dict \<times> 'm option)"
  | RandomisedLayer 'p "'p \<Rightarrow> rng \<Rightarrow> 'p \<times> rng"
      "'p \<Rightarrow> 'a data_dict \<Rightarrow> interp_dict \<Rightarrow> py_exc + 'a data_dict"

datatype tf_dtype = tf_int32 | tf_float32

text \<open>
  A value that pandas holds in a cell read from a csv file: \<open>pandas.read_csv\<close>
  infers the type of every column, so a field is an integer when its whole column
  consists of integer literals and a string otherwise. Columns that pandas reads as
  floating point numbers or as booleans (decimal fractions, \<open>True\<close>/\<open>False\<close>) and
  cells that pandas takes for missing (an empty field, \<open>NA\<close>) are outside this
  model, and so are integers that do not fit 64 bits. The \<open>subject_id\<close> column has one type: \<open>int64\<close> or \<open>object\<close>
  (strings).
\<close>

datatype cell = IntCell int | StrCell string

datatype np_dtype = np_int64 | np_object

text \<open>
  A \<open>pandas.DataFrame\<close> whose first column is \<open>subject_id\<close>: the type of that
  column, the names of the other columns, and the rows as the subject id with the
  values of those columns.
\<close>

record data_frame =
  df_key_dtype :: np_dtype
  df_columns :: "string list"
  df_rows :: "(cell \<times> cell list) list"

record ('a, 'm, 'p) image_reader =
  self_file_list :: "data_frame option"
  self_input_sources :: "(string, string list option) dict option"
  self_shapes :: "(string, nat list) dict option"
  self_dtypes :: "(string, tf_dtype) dict option"
  self_names :: "string list"
  output_list :: "'a image_dict list option"
  current_id :: int
  preprocessors :: "('a, 'm, 'p) layer option list"

text \<open>\<open>ImageReader.__init__(names)\<close>.\<close>

definition ImageReader :: "string list \<Rightarrow> ('a, 'm, 'p) image_reader" where
  "ImageReader names =
     \<lparr> self_file_list = None, self_input_sources = None, self_shapes = None,
       self_dtypes = None, self_names = names, output_list = None,
       current_id = -1, preprocessors = [] \<rparr>"

section \<open>\<open>ImageReader.add_preprocessing_layers\<close>\<close>

definition prepare_preprocessors ::
  "('a, 'm, 'p) image_reader \<Rightarrow> ('a, 'm, 'p) image_reader" where
  "prepare_preprocessors self =
     self\<lparr>preprocessors :=
       map (\<lambda>entry. case entry of
              Some (DataDependentLayer p train call) \<Rightarrow>
                Some (DataDependentLayer (train (output_list self) p) train call)
            | _ \<Rightarrow> entry)
         (preprocessors self)\<rparr>"

text \<open>
  The argument is one layer (\<open>Inl\<close>, appended) or a list of layers (\<open>Inr\<close>,
  the list is extended by it).
\<close>

definition add_preprocessing_layers ::
  "('a, 'm, 'p) image_reader \<Rightarrow> ('a, 'm, 'p) layer + ('a, 'm, 'p) layer option list
     \<Rightarrow> ('a, 'm, 'p) image_reader" where
  "add_preprocessing_layers self layers =
     prepare_preprocessors
       (self\<lparr>preprocessors := preprocessors self @
          (case layers of Inl l \<Rightarrow> [Some l] | Inr ls \<Rightarrow> ls)\<rparr>)"

section \<open>\<open>ImageReader.layer_op\<close>\<close>

text \<open>
  The loop over the copied layers (source lines 120 to 127). The copies are local, so
  the parameters that \<open>randomise()\<close> draws live only in this run.
\<close>

fun run_layers ::
  "('a, 'm, 'p) layer option list \<Rightarrow> 'a data_dict \<Rightarrow> interp_dict \<Rightarrow> 'm option \<Rightarrow> rng
     \<Rightarrow> py_exc + ('a data_dict \<times> 'm option \<times> rng)" where
  "run_layers [] image_data_dict interp_order_dict msk g = Inr (image_data_dict, msk, g)"
| "run_layers (None # ls) image_data_dict interp_order_dict msk g =
     run_layers ls image_data_dict interp_order_dict msk g"
| "run_layers (Some (RandomisedLayer p randomise call) # ls) image_data_dict interp_order_dict msk g =
     (case randomise p g of (p', g') \<Rightarrow>
        (case call p' image_data_dict interp_order_dict of
           Inl e \<Rightarrow> Inl e
         | Inr d \<Rightarrow> run_layers ls d interp_order_dict msk g'))"
| "run_layers (Some (Layer call) # ls) image_data_dict interp_order_dict msk g =
     (case call image_data_dict msk of
        Inl e \<Rightarrow> Inl e
      | Inr (d, msk') \<Rightarrow> run_layers ls d interp_order_dict msk' g)"
| "run_layers (Some (DataDependentLayer p train call) # ls) image_data_dict interp_order_dict msk g =
     (case call p image_data_dict msk of
        Inl e \<Rightarrow> Inl e
      | Inr (d, msk') \<Rightarrow> run_layers ls d interp_order_dict msk' g)"

type_synonym 'a access_result = "int \<times> 'a data_dict option \<times> interp_dict option"

text \<open>
  Source lines 103 to 128: the coercion of \<open>idx\<close>, the bounds check (\<open>or\<close> does not
  evaluate \<open>len(self.output_list)\<close> when \<open>idx < 0\<close>, and \<open>len(None)\<close> raises
  \<open>TypeError\<close>), the two dictionaries and the preprocessing.
\<close>

definition fetch ::
  "('a, 'm, 'p) image_reader \<Rightarrow> py_value \<Rightarrow> rng \<Rightarrow> py_exc + 'a access_result" where
  "fetch self idx g =
     (case (case py_int idx of Inl ValueError \<Rightarrow> Inr (-1) | r \<Rightarrow> r) of
        Inl e \<Rightarrow> Inl e
      | Inr i \<Rightarrow>
          if i < 0 then Inr (-1, None, None)
          else (case output_list self of
              None \<Rightarrow> Inl TypeError
            | Some image_list \<Rightarrow>
                if i \<ge> int (length image_list) then Inr (-1, None, None)
                else
                  let image_dict = image_list ! nat i;
                      image_data_dict = dict_comp (\<lambda>(field, img). (field, get_data img)) image_dict;
                      interp_order_dict = dict_comp (\<lambda>(field, img). (field, interp_order img)) image_dict
                  in if preprocessors self \<noteq> [] then
                       (case run_layers (preprocessors self) image_data_dict interp_order_dict None g of
                          Inl e \<Rightarrow> Inl e
                        | Inr (d, msk, g') \<Rightarrow> Inr (i, Some d, Some interp_order_dict))
                     else Inr (i, Some image_data_dict, Some interp_order_dict)))"

text \<open>
  \<open>layer_op(idx, shuffle)\<close>. The result comes with the reader as the call leaves it:
  \<open>current_id\<close> is written before anything later in the call can raise.
\<close>

definition layer_op ::
  "('a, 'm, 'p) image_reader \<Rightarrow> py_value \<Rightarrow> bool \<Rightarrow> rng
     \<Rightarrow> (py_exc + 'a access_result) \<times> ('a, 'm, 'p) image_reader" where
  "layer_op self idx shuffle g =
     (if idx = PyNone \<and> shuffle then
        (case py_len (output_list self) of
           Inl e \<Rightarrow> (Inl e, self)
         | Inr n \<Rightarrow>
             (case randint n g of
                Inl e \<Rightarrow> (Inl e, self)
              | Inr (i, g') \<Rightarrow> (fetch self (PyInt i) g', self)))
      else if idx = PyNone \<and> \<not> shuffle then
        (let i = current_id self + 1;
             self' = self\<lparr>current_id := i\<rparr>
         in (fetch self' (PyInt i) g, self'))
      else (fetch self idx g, self))"

text \<open>
  A caller making one access after the other on the same reader; each access has its
  arguments and the random draws available to it.
\<close>

fun consecutive_calls ::
  "('a, 'm, 'p) image_reader \<Rightarrow> (py_value \<times> bool \<times> rng) list
     \<Rightarrow> (py_exc + 'a access_result) list" where
  "consecutive_calls self [] = []"
| "consecutive_calls self ((idx, shuffle, g) # calls) =
     (case layer_op self idx shuffle g of
        (res, self') \<Rightarrow> res # consecutive_calls self' calls)"

section \<open>\<open>ImageReader.load_and_merge_csv_files\<close>\<close>

text \<open>
  What \<open>pandas.read_csv(csv_file, header=None, names=['subject_id', modality_name])\<close>
  makes of a two-column csv file: the rows, with the \<open>subject_id\<close> column read as
  \<open>int64\<close> (the ids \<open>01\<close> and \<open>1\<close> are both the integer 1) or as strings. The
  cells of the second column are given as pandas read them: strings, or integers when
  the whole column consists of integer literals (the path \<open>007\<close> is then the
  integer 7).
\<close>

datatype parsed_csv = Int64Ids "(int \<times> cell) list" | ObjectIds "(string \<times> cell) list"

fun key_dtype :: "parsed_csv \<Rightarrow> np_dtype" where
  "key_dtype (Int64Ids rows) = np_int64"
| "key_dtype (ObjectIds rows) = np_object"

fun csv_rows :: "parsed_csv \<Rightarrow> (cell \<times> cell) list" where
  "csv_rows (Int64Ids rows) = map (\<lambda>(subject_id, path). (IntCell subject_id, path)) rows"
| "csv_rows (ObjectIds rows) = map (\<lambda>(subject_id, path). (StrCell subject_id, path)) rows"

text \<open>
  The file system maps a path to what \<open>pandas.read_csv\<close> reads from the file stored
  there, \<open>None\<close> when \<open>os.path.isfile\<close> is false.
\<close>

type_synonym file_system = "string \<Rightarrow> parsed_csv option"

definition read_csv :: "parsed_csv \<Rightarrow> string \<Rightarrow> data_frame" where
  "read_csv csv modality_name =
     \<lparr> df_key_dtype = key_dtype csv,
       df_columns = [modality_name],
       df_rows = map (\<lambda>(subject_id, path). (subject_id, [path])) (csv_rows csv) \<rparr>"

text \<open>
  \<open>pandas.merge(left, right, on='subject_id')\<close>, an inner join: every pair of a left
  row and a right row with the same subject id gives one row. With subject ids that
  repeat, pandas may order the pairs differently; their number is the same. When both
  frames have rows and one \<open>subject_id\<close> column is \<open>int64\<close> and the other holds
  strings, pandas (0.23 and later) refuses to merge and raises \<open>ValueError\<close>.
\<close>

definition pandas_merge :: "data_frame \<Rightarrow> data_frame \<Rightarrow> py_exc + data_frame" where
  "pandas_merge left right =
     (if df_rows left \<noteq> [] \<and> df_rows right \<noteq> [] \<and> df_key_dtype left \<noteq> df_key_dtype right
      then Inl ValueError
      else Inr
       \<lparr> df_key_dtype = df_key_dtype left,
         df_columns = df_columns left @ df_columns right,
         df_rows = concat (map (\<lambda>(subject_id, vals).
                      map (\<lambda>(_, vals'). (subject_id, vals @ vals'))
                        (filter (\<lambda>(subject_id', _). subject_id' = subject_id) (df_rows right)))
                    (df_rows left)) \<rparr>)"

definition df_size :: "data_frame \<Rightarrow> nat" where
  "df_size df = length (df_rows df) * (1 + length (df_columns df))"

text \<open>
  \<open>file_list.loc[idx, col]\<close> on a frame with the default row index.
\<close>

definition df_loc :: "data_frame \<Rightarrow> nat \<Rightarrow> string \<Rightarrow> py_exc + cell" where
  "df_loc df idx col =
     (if idx \<ge> length (df_rows df) then Inl KeyError
      else (case df_rows df ! idx of (subject_id, vals) \<Rightarrow>
        if col = ''subject_id'' then Inr subject_id
        else (case map_of (zip (df_columns df) vals) col of
                None \<Rightarrow> Inl KeyError
              | Some v \<Rightarrow> Inr v)))"

text \<open>One section of the configuration (\<open>data_param[modality_name]\<close>).\<close>

record input_section =
  csv_file :: string
  section_interp_order :: int
  pixdim :: "rat list option"
  axcodes :: "string option"

type_synonym data_param = "(string, input_section) dict"

text \<open>
  The loop of source lines 139 to 154, with \<open>_file_list\<close> and the warnings logged so
  far as loop state. A warning is the csv file named in it.
\<close>

fun merge_loop ::
  "file_system \<Rightarrow> data_param \<Rightarrow> data_frame option \<Rightarrow> string list
     \<Rightarrow> py_exc + (data_frame option \<times> string list)" where
  "merge_loop fs [] file_list warnings = Inr (file_list, warnings)"
| "merge_loop fs ((modality_name, section) # rest) file_list warnings =
     (case fs (csv_file section) of
        None \<Rightarrow> Inl IOError
      | Some csv \<Rightarrow>
          (let csv_list = read_csv csv modality_name in
           case file_list of
             None \<Rightarrow> merge_loop fs rest (Some csv_list) warnings
           | Some fl \<Rightarrow>
               (let n_rows = length (df_rows fl) in
                case pandas_merge fl csv_list of
                  Inl e \<Rightarrow> Inl e
                | Inr fl' \<Rightarrow>
                    merge_loop fs rest (Some fl')
                      (if length (df_rows fl') \<noteq> n_rows
                       then warnings @ [csv_file section] else warnings))))"

text \<open>
  After the loop \<open>_file_list.size\<close> is read; when the loop never ran, \<open>_file_list\<close>
  is still \<open>None\<close> and the attribute access raises \<open>AttributeError\<close>.
\<close>

definition load_and_merge_csv_files ::
  "file_system \<Rightarrow> data_param \<Rightarrow> py_exc + (data_frame \<times> string list)" where
  "load_and_merge_csv_files fs data_param =
     (case merge_loop fs data_param None [] of
        Inl e \<Rightarrow> Inl e
      | Inr (None, warnings) \<Rightarrow> Inl AttributeError
      | Inr (Some file_list, warnings) \<Rightarrow>
          if df_size file_list = 0 then Inl IOError else Inr (file_list, warnings))"

section \<open>Building the image list\<close>

text \<open>
  A tuple built by a generator expression: the first element that raises ends it.
\<close>

fun tuple_of :: "('x \<Rightarrow> py_exc + 'y) \<Rightarrow> 'x list \<Rightarrow> py_exc + 'y list" where
  "tuple_of f [] = Inr []"
| "tuple_of f (x # xs) =
     (case f x of
        Inl e \<Rightarrow> Inl e
      | Inr y \<Rightarrow> (case tuple_of f xs of Inl e \<Rightarrow> Inl e | Inr ys \<Rightarrow> Inr (y # ys)))"

text \<open>
  The keyword arguments handed to \<open>ImageFactory.create_instance\<close>
  (\<open>image_name\<close> is the argument \<open>name\<close>).
\<close>

record image_properties =
  file_path :: "cell list"
  image_name :: "string list"
  properties_interp_order :: "int list"
  output_pixdim :: "rat list option list"
  output_axcodes :: "string option list"

definition section_attr ::
  "data_param \<Rightarrow> (input_section \<Rightarrow> 'y) \<Rightarrow> string \<Rightarrow> py_exc + 'y" where
  "section_attr data_param attr modality =
     (case dict_getitem data_param modality of Inl e \<Rightarrow> Inl e | Inr sec \<Rightarrow> Inr (attr sec))"

text \<open>
  \<open>create_image\<close>. \<open>modalities\<close> is what the task section gave for the field;
  iterating over \<open>None\<close> raises \<open>TypeError\<close>, which the \<open>except KeyError\<close> lets
  through like the \<open>KeyError\<close> it re-raises.
\<close>

definition create_image ::
  "(image_properties \<Rightarrow> 'a image) \<Rightarrow> data_frame \<Rightarrow> nat \<Rightarrow> string list option \<Rightarrow> data_param
     \<Rightarrow> py_exc + 'a image" where
  "create_image create_instance file_list idx modalities data_param =
     (case modalities of
        None \<Rightarrow> Inl TypeError
      | Some mods \<Rightarrow>
         (case tuple_of (df_loc file_list idx) mods of
            Inl e \<Rightarrow> Inl e
          | Inr paths \<Rightarrow>
         (case tuple_of (section_attr data_param section_interp_order) mods of
            Inl e \<Rightarrow> Inl e
          | Inr orders \<Rightarrow>
         (case tuple_of (section_attr data_param pixdim) mods of
            Inl e \<Rightarrow> Inl e
          | Inr pixdims \<Rightarrow>
         (case tuple_of (section_attr data_param axcodes) mods of
            Inl e \<Rightarrow> Inl e
          | Inr codes \<Rightarrow>
              Inr (create_instance
                \<lparr> file_path = paths, image_name = mods, properties_interp_order = orders,
                  output_pixdim = pixdims, output_axcodes = codes \<rparr>))))))"

text \<open>
  \<open>filename_to_image_list\<close>: one dictionary per row of the frame, with the fields of
  \<open>mod_dict\<close> as keys. The progress bar only prints.
\<close>

definition filename_to_image_list ::
  "(image_properties \<Rightarrow> 'a image) \<Rightarrow> data_frame \<Rightarrow> (string, string list option) dict
     \<Rightarrow> data_param \<Rightarrow> py_exc + 'a image_dict list" where
  "filename_to_image_list create_instance file_list mod_dict data_param =
     tuple_of (\<lambda>idx.
         (case tuple_of (\<lambda>(field, modalities).
                   (case create_image create_instance file_list idx modalities data_param of
                      Inl e \<Rightarrow> Inl e
                    | Inr img \<Rightarrow> Inr (field, img))) mod_dict of
            Inl e \<Rightarrow> Inl e
          | Inr entries \<Rightarrow> Inr (dict_comp (\<lambda>entry. entry) entries)))
       [0 ..< length (df_rows file_list)]"

section \<open>\<open>ImageReader.initialise_reader\<close>\<close>

text \<open>
  \<open>vars(task_param)\<close> is a dictionary from field names to tuples of section names;
  \<open>.get(name, None)\<close> is a lookup, and a tuple is true when it is not empty.
\<close>

type_synonym task_param = "(string, string list) dict"

definition truthy :: "string list option \<Rightarrow> bool" where
  "truthy v = (case v of None \<Rightarrow> False | Some xs \<Rightarrow> xs \<noteq> [])"

text \<open>Source lines 57 to 66, for one name, and lines 56 to 66.\<close>

fun load_sources ::
  "data_param \<Rightarrow> string list \<Rightarrow> data_param \<Rightarrow> py_exc + data_param" where
  "load_sources data_param [] data_to_load = Inr data_to_load"
| "load_sources data_param (source # sources) data_to_load =
     (case map_of data_param source of
        None \<Rightarrow> Inl ValueError
      | Some sec \<Rightarrow> load_sources data_param sources (AList.update source sec data_to_load))"

fun collect_data_to_load ::
  "data_param \<Rightarrow> (string, string list option) dict \<Rightarrow> string list \<Rightarrow> data_param
     \<Rightarrow> py_exc + data_param" where
  "collect_data_to_load data_param input_sources [] data_to_load = Inr data_to_load"
| "collect_data_to_load data_param input_sources (name # names) data_to_load =
     (case dict_getitem input_sources name of
        Inl e \<Rightarrow> Inl e
      | Inr None \<Rightarrow> Inl TypeError
      | Inr (Some sources) \<Rightarrow>
          (case load_sources data_param sources data_to_load of
             Inl e \<Rightarrow> Inl e
           | Inr data_to_load' \<Rightarrow>
               collect_data_to_load data_param input_sources names data_to_load'))"

text \<open>
  \<open>initialise_reader\<close> returns the exception it raised, if any, and the reader as the
  call leaves it: \<open>_names\<close> and \<open>_input_sources\<close> are assigned before the later steps
  can raise. The final loop only logs.
\<close>

definition initialise_reader ::
  "(image_properties \<Rightarrow> 'a image) \<Rightarrow> file_system \<Rightarrow> ('a, 'm, 'p) image_reader
     \<Rightarrow> data_param \<Rightarrow> task_param \<Rightarrow> py_exc option \<times> ('a, 'm, 'p) image_reader" where
  "initialise_reader create_instance fs self data_param task_param =
     (if self_names self = [] then (Some ValueError, self)
      else
        let names' = filter (\<lambda>name. truthy (map_of task_param name)) (self_names self);
            input_sources = dict_comp (\<lambda>name. (name, map_of task_param name)) names';
            self1 = self\<lparr>self_names := names', self_input_sources := Some input_sources\<rparr>
        in (case collect_data_to_load data_param input_sources names' [] of
              Inl e \<Rightarrow> (Some e, self1)
            | Inr data_to_load \<Rightarrow>
           (case load_and_merge_csv_files fs data_to_load of
              Inl e \<Rightarrow> (Some e, self1)
            | Inr (file_list, warnings) \<Rightarrow>
           (let self2 = self1\<lparr>self_file_list := Some file_list\<rparr> in
            case filename_to_image_list create_instance file_list input_sources data_param of
              Inl e \<Rightarrow> (Some e, self2)
            | Inr volume_list \<Rightarrow> (None, self2\<lparr>output_list := Some volume_list\<rparr>)))))"

section \<open>The cached properties \<open>shapes\<close> and \<open>tf_dtypes\<close>\<close>

text \<open>\<open>not x\<close> for a list or dictionary that may be \<open>None\<close>.\<close>

definition py_not :: "'x list option \<Rightarrow> bool" where
  "py_not x = (case x of None \<Rightarrow> True | Some xs \<Rightarrow> xs = [])"

definition infer_tf_dtypes :: "'a image \<Rightarrow> py_exc + tf_dtype" where
  "infer_tf_dtypes image_array =
     (case dtype image_array of
        [] \<Rightarrow> Inl IndexError
      | kind # _ \<Rightarrow>
          Inr (case map_of [(CHR ''i'', tf_int32), (CHR ''u'', tf_int32),
                            (CHR ''b'', tf_int32), (CHR ''f'', tf_float32)] kind of
                 None \<Rightarrow> tf_float32
               | Some t \<Rightarrow> t))"

definition shapes ::
  "('a, 'm, 'p) image_reader
     \<Rightarrow> (py_exc + (string, nat list) dict) \<times> ('a, 'm, 'p) image_reader" where
  "shapes self =
     (if py_not (output_list self) then (Inl RuntimeError, self)
      else if py_not (self_shapes self) then
        (case output_list self of
           Some (first_image # _) \<Rightarrow>
             (case tuple_of (\<lambda>field.
                       (case dict_getitem first_image field of
                          Inl e \<Rightarrow> Inl e
                        | Inr img \<Rightarrow> Inr (field, shape img))) (self_names self) of
                Inl e \<Rightarrow> (Inl e, self)
              | Inr entries \<Rightarrow>
                  (let d = dict_comp (\<lambda>entry. entry) entries
                   in (Inr d, self\<lparr>self_shapes := Some d\<rparr>)))
         | _ \<Rightarrow> (Inl RuntimeError, self))
      else (case self_shapes self of
              Some d \<Rightarrow> (Inr d, self)
            | None \<Rightarrow> (Inl RuntimeError, self)))"

definition tf_dtypes ::
  "('a, 'm, 'p) image_reader
     \<Rightarrow> (py_exc + (string, tf_dtype) dict) \<times> ('a, 'm, 'p) image_reader" where
  "tf_dtypes self =
     (if py_not (output_list self) then (Inl RuntimeError, self)
      else if py_not (self_dtypes self) then
        (case output_list self of
           Some (first_image # _) \<Rightarrow>
             (case tuple_of (\<lambda>field.
                       (case dict_getitem first_image field of
                          Inl e \<Rightarrow> Inl e
                        | Inr img \<Rightarrow>
                            (case infer_tf_dtypes img of
                               Inl e \<Rightarrow> Inl e
                             | Inr t \<Rightarrow> Inr (field, t)))) (self_names self) of
                Inl e \<Rightarrow> (Inl e, self)
              | Inr entries \<Rightarrow>
                  (let d = dict_comp (\<lambda>entry. entry) entries
                   in (Inr d, self\<lparr>self_dtypes := Some d\<rparr>)))
         | _ \<Rightarrow> (Inl RuntimeError, self))
      else (case self_dtypes self of
              Some d \<Rightarrow> (Inr d, self)
            | None \<Rightarrow> (Inl RuntimeError, self)))"

section \<open>The transform pipeline in the words of the specification\<close>

text \<open>
  One stage: a randomised stage draws fresh randomness, then transforms the
  field-to-array mapping, given the interp-order mapping, and leaves the mask alone;
  any other stage transforms the mapping together with the mask.
\<close>

definition apply_stage ::
  "interp_dict \<Rightarrow> ('a, 'm, 'p) layer \<Rightarrow> 'a data_dict \<times> 'm option \<times> rng
     \<Rightarrow> py_exc + ('a data_dict \<times> 'm option \<times> rng)" where
  "apply_stage interp_order_dict stage st =
     (case st of (d, msk, g) \<Rightarrow>
       (case stage of
          RandomisedLayer p randomise call \<Rightarrow>
            (case randomise p g of (p', g') \<Rightarrow>
               (case call p' d interp_order_dict of
                  Inl e \<Rightarrow> Inl e
                | Inr d' \<Rightarrow> Inr (d', msk, g')))
        | Layer call \<Rightarrow>
            (case call d msk of Inl e \<Rightarrow> Inl e | Inr (d', msk') \<Rightarrow> Inr (d', msk', g))
        | DataDependentLayer p train call \<Rightarrow>
            (case call p d msk of Inl e \<Rightarrow> Inl e | Inr (d', msk') \<Rightarrow> Inr (d', msk', g))))"

text \<open>
  The stages that are present are applied in list order, each to the result of the one
  before; the first failure is the result.
\<close>

definition apply_pipeline ::
  "('a, 'm, 'p) layer option list \<Rightarrow> interp_dict \<Rightarrow> 'a data_dict \<times> 'm option \<times> rng
     \<Rightarrow> py_exc + ('a data_dict \<times> 'm option \<times> rng)" where
  "apply_pipeline stages interp_order_dict st =
     foldl (\<lambda>acc stage. case acc of Inl e \<Rightarrow> Inl e | Inr st' \<Rightarrow> apply_stage interp_order_dict stage st')
       (Inr st) (List.map_filter (\<lambda>entry. entry) stages)"

section \<open>A valid access in the words of the specification\<close>

text \<open>
  On a valid index the record is fetched, each field gives its data and its
  interpolation order, and the two mappings go through the pipeline, which starts with
  no mask. The interp-order mapping is returned as it was built.
\<close>

definition transformed_record ::
  "('a, 'm, 'p) layer option list \<Rightarrow> 'a image_dict \<Rightarrow> int \<Rightarrow> rng \<Rightarrow> py_exc + 'a access_result" where
  "transformed_record stages image_dict i g =
     (let field_data = dict_comp (\<lambda>(field, img). (field, get_data img)) image_dict;
          field_interp_orders = dict_comp (\<lambda>(field, img). (field, interp_order img)) image_dict
      in case apply_pipeline stages field_interp_orders (field_data, None, g) of
           Inl e \<Rightarrow> Inl e
         | Inr (d, msk, g') \<Rightarrow> Inr (i, Some d, Some field_interp_orders))"


section \<open>Contracts of the external layers and the reader invariant\<close>

text \<open>
  A layer is external code. \<open>stage_returns\<close> says that its call never raises,
  \<open>stage_keeps_fields\<close> that the mapping it returns has the keys of the mapping it
  was given. An absent layer satisfies both.
\<close>

definition stage_returns :: "('a, 'm, 'p) layer option \<Rightarrow> bool" where
  "stage_returns entry =
     (case entry of
        None \<Rightarrow> True
      | Some (Layer call) \<Rightarrow> (\<forall>d msk. \<exists>r. call d msk = Inr r)
      | Some (DataDependentLayer p train call) \<Rightarrow> (\<forall>d msk. \<exists>r. call p d msk = Inr r)
      | Some (RandomisedLayer p randomise call) \<Rightarrow> (\<forall>p' d io. \<exists>r. call p' d io = Inr r))"


text \<open>
  What \<open>initialise_reader\<close> establishes when it returns: there are field names, the
  image list is not empty, and every record has exactly the field names as keys.
\<close>

definition initialised :: "('a, 'm, 'p) image_reader \<Rightarrow> bool" where
  "initialised self =
     (self_names self \<noteq> [] \<and>
      (case output_list self of
         None \<Rightarrow> False
       | Some ol \<Rightarrow>
           ol \<noteq> [] \<and> list_all (\<lambda>image_dict. dict_keys image_dict = set (self_names self)) ol))"

text \<open>A call is in sequential mode when it gives no index and \<open>shuffle\<close> is false.\<close>

definition sequential :: "py_value \<times> bool \<times> rng \<Rightarrow> bool" where
  "sequential call = (case call of (idx, shuffle, g) \<Rightarrow> idx = PyNone \<and> \<not> shuffle)"

section \<open>A corpus of two subjects\<close>

text \<open>
  Two manifests, \<open>t1.csv\<close> with subjects \<open>s1, s2\<close> and \<open>seg.csv\<close> with subjects
  \<open>s1, s2, s3\<close>; a task with the fields \<open>image\<close> and \<open>label\<close> and an empty
  field \<open>weight\<close>; an image factory whose images carry as data the file paths that
  are strings.
\<close>

definition example_fs :: file_system where
  "example_fs path =
     (if path = ''t1.csv''
        then Some (ObjectIds [(''s1'', StrCell ''a1.nii''), (''s2'', StrCell ''a2.nii'')])
      else if path = ''seg.csv''
        then Some (ObjectIds [(''s1'', StrCell ''l1.nii''), (''s2'', StrCell ''l2.nii''),
                              (''s3'', StrCell ''l3.nii'')])
      else None)"

definition example_data_param :: data_param where
  "example_data_param =
     [(''T1'', \<lparr>csv_file = ''t1.csv'', section_interp_order = 3, pixdim = None, axcodes = None\<rparr>),
      (''seg'', \<lparr>csv_file = ''seg.csv'', section_interp_order = 0, pixdim = None, axcodes = None\<rparr>)]"

definition example_task_param :: task_param where
  "example_task_param = [(''image'', [''T1'']), (''label'', [''seg'']), (''weight'', [])]"

definition example_factory :: "image_properties \<Rightarrow> string list image" where
  "example_factory props =
     \<lparr>get_data = [path. StrCell path \<leftarrow> file_path props], shape = [2, 2, 3], dtype = ''f'',
      interp_order = properties_interp_order props\<rparr>"

definition example_reader :: "(string list, unit, nat) image_reader" where
  "example_reader =
     snd (initialise_reader example_factory example_fs
            (ImageReader [''image'', ''label'', ''weight'']) example_data_param example_task_param)"

text \<open>
  Six calls: sequential, explicit index 1, random, sequential, explicit index \<open>'x'\<close>,
  sequential.
\<close>

definition example_calls :: "(py_value \<times> bool \<times> rng) list" where
  "example_calls =
     [(PyNone, False, \<lambda>k. 0), (PyInt 1, True, \<lambda>k. 0), (PyNone, True, \<lambda>k. 1),
      (PyNone, False, \<lambda>k. 0), (PyStr ''x'', False, \<lambda>k. 0), (PyNone, False, \<lambda>k. 0)]"


section \<open>Example layers\<close>


definition crop_layer :: "(string list, unit, nat) layer" where
  "crop_layer =
     Layer (\<lambda>d msk. Inr (map (\<lambda>(field, v). (field, v @ [case msk of None \<Rightarrow> ''crop'' | Some _ \<Rightarrow> ''reuse''])) d,
                          Some ()))"

definition flip_layer :: "(string list, unit, nat) layer" where
  "flip_layer =
     RandomisedLayer 0 (\<lambda>p g. (g 0, \<lambda>k. g (Suc k)))
       (\<lambda>p d io. Inr (map (\<lambda>(field, v). (field, v @ [if even p then ''keep'' else ''flip''])) d))"

definition example_pipeline_reader :: "(string list, unit, nat) image_reader" where
  "example_pipeline_reader =
     add_preprocessing_layers example_reader
       (Inr [Some crop_layer, None, Some flip_layer, Some crop_layer])"




section \<open>Example manifests\<close>

text \<open>
  Manifests \<open>a.csv\<close>, \<open>b.csv\<close>, \<open>c.csv\<close> and \<open>d.csv\<close> for the modalities
  \<open>A\<close>, \<open>B\<close>, \<open>C\<close> and \<open>D\<close>. In \<open>duplicate_fs\<close> the first two list the
  subject \<open>s1\<close> twice each. In \<open>clash_fs\<close> the ids of \<open>a.csv\<close> are integers and
  those of \<open>b.csv\<close> are strings. In \<open>overlap_fs\<close> all ids are integers: the
  subjects \<open>1, 2, 3\<close>, then \<open>2, 3, 4\<close>, then \<open>3, 5\<close>, then \<open>3, 9\<close>.
\<close>

definition duplicate_fs :: file_system where
  "duplicate_fs path =
     (if path = ''a.csv''
        then Some (ObjectIds [(''s1'', StrCell ''a1.nii''), (''s1'', StrCell ''a1_repeat.nii'')])
      else if path = ''b.csv''
        then Some (ObjectIds [(''s1'', StrCell ''b1.nii''), (''s1'', StrCell ''b1_repeat.nii'')])
      else None)"

definition clash_fs :: file_system where
  "clash_fs path =
     (if path = ''a.csv'' then Some (Int64Ids [(1, StrCell ''a1.nii'')])
      else if path = ''b.csv'' then Some (ObjectIds [(''s1'', StrCell ''b1.nii'')])
      else None)"

definition two_manifests :: data_param where
  "two_manifests =
     [(''A'', \<lparr>csv_file = ''a.csv'', section_interp_order = 3, pixdim = None, axcodes = None\<rparr>),
      (''B'', \<lparr>csv_file = ''b.csv'', section_interp_order = 3, pixdim = None, axcodes = None\<rparr>)]"

definition overlap_fs :: file_system where
  "overlap_fs path =
     (if path = ''a.csv''
        then Some (Int64Ids [(1, StrCell ''a1''), (2, StrCell ''a2''), (3, StrCell ''a3'')])
      else if path = ''b.csv''
        then Some (Int64Ids [(2, StrCell ''b2''), (3, StrCell ''b3''), (4, StrCell ''b4'')])
      else if path = ''c.csv''
        then Some (Int64Ids [(3, StrCell ''c3''), (5, StrCell ''c5'')])
      else if path = ''d.csv''
        then Some (Int64Ids [(3, StrCell ''d3''), (9, StrCell ''d9'')])
      else None)"

definition four_manifests :: data_param where
  "four_manifests =
     [(''A'', \<lparr>csv_file = ''a.csv'', section_interp_order = 3, pixdim = None, axcodes = None\<rparr>),
      (''B'', \<lparr>csv_file = ''b.csv'', section_interp_order = 3, pixdim = None, axcodes = None\<rparr>),
      (''C'', \<lparr>csv_file = ''c.csv'', section_interp_order = 3, pixdim = None, axcodes = None\<rparr>),
      (''D'', \<lparr>csv_file = ''d.csv'', section_interp_order = 3, pixdim = None, axcodes = None\<rparr>)]"

section \<open>Dictionaries and the layer loop\<close>

lemma foldl_update_keys:
  "fst ` set (foldl (\<lambda>d x. AList.update (fst (f x)) (snd (f x)) d) d0 xs)
     = fst ` set d0 \<union> (\<lambda>x. fst (f x)) ` set xs"
  by (induction xs arbitrary: d0) (auto simp: AList.dom_update)

lemma dict_keys_dict_comp: "dict_keys (dict_comp f xs) = (\<lambda>x. fst (f x)) ` set xs"
  by (simp add: dict_keys_def dict_comp_def foldl_update_keys)


lemma layer_op_not_sequential:
  "idx \<noteq> PyNone \<or> shuffle \<Longrightarrow> snd (layer_op self idx shuffle g) = self"
  by (auto simp: layer_op_def split: sum.splits prod.splits)

lemma fetch_sentinel:
  assumes "py_int idx = Inl ValueError \<or> (\<exists>i. py_int idx = Inr i \<and> (i < 0 \<or> int (length ol) \<le> i))"
    and "output_list self = Some ol"
  shows "fetch self idx g = Inr (-1, None, None)"
  using assms by (auto simp: fetch_def py_len_def)

lemma fetch_valid:
  assumes "output_list self = Some ol" "0 \<le> i" "i < int (length ol)"
  shows "fetch self (PyInt i) g =
     (let image_dict = ol ! nat i;
          image_data_dict = dict_comp (\<lambda>(field, img). (field, get_data img)) image_dict;
          interp_order_dict = dict_comp (\<lambda>(field, img). (field, interp_order img)) image_dict
      in if preprocessors self \<noteq> [] then
           (case run_layers (preprocessors self) image_data_dict interp_order_dict None g of
              Inl e \<Rightarrow> Inl e
            | Inr (d, msk, g') \<Rightarrow> Inr (i, Some d, Some interp_order_dict))
         else Inr (i, Some image_data_dict, Some interp_order_dict))"
  using assms by (simp add: fetch_def py_len_def Let_def)

lemma foldl_stage_Inl:
  "foldl (\<lambda>acc stage. case acc of Inl e \<Rightarrow> Inl e | Inr st' \<Rightarrow> f stage st') (Inl e) xs = Inl e"
  by (induction xs) auto

lemma run_layers_apply_pipeline:
  "run_layers ls d io msk g = apply_pipeline ls io (d, msk, g)"
proof (induction ls d io msk g rule: run_layers.induct)
  case (1 d io msk g)
  show ?case by (simp add: apply_pipeline_def List.map_filter_simps)
next
  case (2 ls d io msk g)
  then show ?case by (simp add: apply_pipeline_def List.map_filter_simps)
next
  case (3 p randomise call ls d io msk g)
  then show ?case
    by (auto simp: apply_pipeline_def List.map_filter_simps apply_stage_def foldl_stage_Inl
             split: prod.splits sum.splits)
next
  case (4 call ls d io msk g)
  then show ?case
    by (auto simp: apply_pipeline_def List.map_filter_simps apply_stage_def foldl_stage_Inl
             split: prod.splits sum.splits)
next
  case (5 p train call ls d io msk g)
  then show ?case
    by (auto simp: apply_pipeline_def List.map_filter_simps apply_stage_def foldl_stage_Inl
             split: prod.splits sum.splits)
qed

lemma run_layers_returns:
  "list_all stage_returns ls \<Longrightarrow> \<exists>r. run_layers ls d io msk g = Inr r"
proof (induction ls d io msk g rule: run_layers.induct)
  case (3 p randomise call ls d io msk g)
  obtain p' g' where r: "randomise p g = (p', g')" by (cases "randomise p g")
  from 3(2) have "\<forall>p' d io. \<exists>r. call p' d io = Inr r"
    by (simp add: stage_returns_def)
  then obtain d' where c: "call p' d io = Inr d'" by blast
  from 3(1)[OF r[symmetric] c] 3(2) r c show ?case by simp
next
  case (4 call ls d io msk g)
  from 4(2) have "\<forall>d msk. \<exists>r. call d msk = Inr r"
    by (simp add: stage_returns_def)
  then obtain r where "call d msk = Inr r" by blast
  then obtain d' msk' where c: "call d msk = Inr (d', msk')" by (cases r) simp
  from 4(1)[OF c refl] 4(2) c show ?case by simp
next
  case (5 p train call ls d io msk g)
  from 5(2) have "\<forall>d msk. \<exists>r. call p d msk = Inr r"
    by (simp add: stage_returns_def)
  then obtain r where "call p d msk = Inr r" by blast
  then obtain d' msk' where c: "call p d msk = Inr (d', msk')" by (cases r) simp
  from 5(1)[OF c refl] 5(2) c show ?case by simp
qed (simp_all add: stage_returns_def)


section \<open>The example corpus, evaluated\<close>

lemma example_reader_eq:
  "example_reader =
     \<lparr>self_file_list =
        Some \<lparr>df_key_dtype = np_object, df_columns = [''T1'', ''seg''],
              df_rows = [(StrCell ''s1'', [StrCell ''a1.nii'', StrCell ''l1.nii'']),
                         (StrCell ''s2'', [StrCell ''a2.nii'', StrCell ''l2.nii''])]\<rparr>,
      self_input_sources = Some [(''image'', Some [''T1'']), (''label'', Some [''seg''])],
      self_shapes = None, self_dtypes = None,
      self_names = [''image'', ''label''],
      output_list =
        Some [[(''image'', \<lparr>get_data = [''a1.nii''], shape = [2, 2, 3], dtype = ''f'', interp_order = [3]\<rparr>),
               (''label'', \<lparr>get_data = [''l1.nii''], shape = [2, 2, 3], dtype = ''f'', interp_order = [0]\<rparr>)],
              [(''image'', \<lparr>get_data = [''a2.nii''], shape = [2, 2, 3], dtype = ''f'', interp_order = [3]\<rparr>),
               (''label'', \<lparr>get_data = [''l2.nii''], shape = [2, 2, 3], dtype = ''f'', interp_order = [0]\<rparr>)]],
      current_id = - 1, preprocessors = []\<rparr>"
  by (simp add: example_reader_def initialise_reader_def ImageReader_def truthy_def dict_comp_def
      dict_getitem_def load_and_merge_csv_files_def example_fs_def example_data_param_def
      example_task_param_def read_csv_def pandas_merge_def df_size_def filename_to_image_list_def
      create_image_def df_loc_def section_attr_def example_factory_def Let_def upt_rec)

lemmas access_eval =
  layer_op_def fetch_def py_len_def randint_def dict_comp_def Let_def int_of_str_def strip_def
  is_space_def is_digit_def

section \<open>The sequential cursor\<close>

lemma consecutive_calls_sequential_only:
  "map snd (filter (\<lambda>(c, r). sequential c) (zip calls (consecutive_calls self calls)))
     = consecutive_calls self (filter sequential calls)"
proof (induction calls arbitrary: self)
  case Nil
  show ?case by simp
next
  case (Cons c calls)
  obtain idx shuffle g where c: "c = (idx, shuffle, g)" by (cases c)
  obtain res self' where l: "layer_op self idx shuffle g = (res, self')"
    by (cases "layer_op self idx shuffle g")
  show ?case
  proof (cases "sequential c")
    case True
    with c l Cons.IH[of self'] show ?thesis by simp
  next
    case False
    with c have "idx \<noteq> PyNone \<or> shuffle" by (simp add: sequential_def)
    from layer_op_not_sequential[OF this, of self g] l have "self' = self" by simp
    with False c l Cons.IH[of self] show ?thesis by simp
  qed
qed

text \<open>
  Claim C9. An access with an explicit index, or a random access (no index,
  \<open>shuffle\<close> true), leaves \<open>current_id\<close> as it was. Hence, in any sequence of
  calls on one reader, the results of the sequential calls are the results those calls
  give when the other calls are left out.
\<close>

theorem non_sequential_access_keeps_cursor:
  "(idx \<noteq> PyNone \<or> shuffle \<longrightarrow>
      current_id (snd (layer_op self idx shuffle g)) = current_id self) \<and>
   map snd (filter (\<lambda>(c, r). sequential c) (zip calls (consecutive_calls self calls)))
     = consecutive_calls self (filter sequential calls)"
  using layer_op_not_sequential[of idx shuffle self g]
  by (simp add: consecutive_calls_sequential_only)

theorem non_sequential_access_keeps_cursor_witness:
  "PyInt 1 \<noteq> PyNone \<and>
   current_id (snd (layer_op example_reader (PyInt 1) True (\<lambda>k. 0))) = - 1 \<and>
   consecutive_calls example_reader (filter sequential example_calls) =
     [Inr (0, Some [(''image'', [''a1.nii'']), (''label'', [''l1.nii''])],
              Some [(''image'', [3]), (''label'', [0])]),
      Inr (1, Some [(''image'', [''a2.nii'']), (''label'', [''l2.nii''])],
              Some [(''image'', [3]), (''label'', [0])]),
      Inr (- 1, None, None)] \<and>
   map snd (filter (\<lambda>(c, r). sequential c)
         (zip example_calls (consecutive_calls example_reader example_calls))) =
     [Inr (0, Some [(''image'', [''a1.nii'']), (''label'', [''l1.nii''])],
              Some [(''image'', [3]), (''label'', [0])]),
      Inr (1, Some [(''image'', [''a2.nii'']), (''label'', [''l2.nii''])],
              Some [(''image'', [3]), (''label'', [0])]),
      Inr (- 1, None, None)]"
proof -
  have seq: "consecutive_calls example_reader (filter sequential example_calls) =
     [Inr (0, Some [(''image'', [''a1.nii'']), (''label'', [''l1.nii''])],
              Some [(''image'', [3]), (''label'', [0])]),
      Inr (1, Some [(''image'', [''a2.nii'']), (''label'', [''l2.nii''])],
              Some [(''image'', [3]), (''label'', [0])]),
      Inr (- 1, None, None)]"
    by (simp add: example_calls_def sequential_def example_reader_eq access_eval)
  have cur: "current_id example_reader = - 1"
    by (simp add: example_reader_eq)
  from non_sequential_access_keeps_cursor
         [of "PyInt 1" True example_reader "\<lambda>k. 0" example_calls] seq cur
  show ?thesis by simp
qed

section \<open>Accesses that return no data\<close>




text \<open>
  Claim C3 as stated fails: only \<open>ValueError\<close> is caught around \<open>int(idx)\<close>.
  An index such as a list, on which \<open>int()\<close> raises \<open>TypeError\<close>, makes the
  access raise that error.
\<close>

theorem explicit_access_type_error_counterexample:
  "py_int (PyObject (Inl TypeError)) = Inl TypeError \<and>
   length (the (output_list example_reader)) = 2 \<and>
   layer_op example_reader (PyObject (Inl TypeError)) True (\<lambda>k. 0)
     = (Inl TypeError, example_reader)"
  by (simp add: example_reader_eq access_eval)

text \<open>
  Claim C3, amended. An access with an explicit index on a reader with \<open>N\<close>
  records returns the sentinel \<open>(-1, None, None)\<close>, leaving the reader as it was,
  when \<open>int(idx)\<close> raises \<open>ValueError\<close> or gives an integer outside
  \<open>[0, N)\<close>.
\<close>

theorem explicit_access_out_of_range:
  assumes "output_list self = Some ol" and "idx \<noteq> PyNone"
    and "py_int idx = Inl ValueError \<or>
         (\<exists>i. py_int idx = Inr i \<and> (i < 0 \<or> int (length ol) \<le> i))"
  shows "layer_op self idx shuffle g = (Inr (- 1, None, None), self)"
  using assms(2) fetch_sentinel[OF assms(3) assms(1), of g]
  by (simp add: layer_op_def)

theorem explicit_access_out_of_range_witness:
  "output_list example_reader
     = Some [[(''image'', \<lparr>get_data = [''a1.nii''], shape = [2, 2, 3], dtype = ''f'', interp_order = [3]\<rparr>),
              (''label'', \<lparr>get_data = [''l1.nii''], shape = [2, 2, 3], dtype = ''f'', interp_order = [0]\<rparr>)],
             [(''image'', \<lparr>get_data = [''a2.nii''], shape = [2, 2, 3], dtype = ''f'', interp_order = [3]\<rparr>),
              (''label'', \<lparr>get_data = [''l2.nii''], shape = [2, 2, 3], dtype = ''f'', interp_order = [0]\<rparr>)]] \<and>
   py_int (PyStr ''abc'') = Inl ValueError \<and>
   layer_op example_reader (PyStr ''abc'') True (\<lambda>k. 0) = (Inr (- 1, None, None), example_reader) \<and>
   py_int (PyInt 2) = Inr 2 \<and>
   layer_op example_reader (PyInt 2) True (\<lambda>k. 0) = (Inr (- 1, None, None), example_reader) \<and>
   py_int (PyStr '' -1 '') = Inr (- 1) \<and>
   layer_op example_reader (PyStr '' -1 '') False (\<lambda>k. 0) = (Inr (- 1, None, None), example_reader)"
proof -
  let ?ol = "[[(''image'', \<lparr>get_data = [''a1.nii''], shape = [2, 2, 3], dtype = ''f'', interp_order = [3]\<rparr>),
              (''label'', \<lparr>get_data = [''l1.nii''], shape = [2, 2, 3], dtype = ''f'', interp_order = [0]\<rparr>)],
             [(''image'', \<lparr>get_data = [''a2.nii''], shape = [2, 2, 3], dtype = ''f'', interp_order = [3]\<rparr>),
              (''label'', \<lparr>get_data = [''l2.nii''], shape = [2, 2, 3], dtype = ''f'', interp_order = [0]\<rparr>)]]"
  have ol: "output_list example_reader = Some ?ol"
    by (simp add: example_reader_eq)
  have a: "py_int (PyStr ''abc'') = Inl ValueError"
    by (simp add: int_of_str_def strip_def is_space_def is_digit_def)
  have b: "py_int (PyStr '' -1 '') = Inr (- 1)"
    by (simp add: int_of_str_def strip_def is_space_def is_digit_def digits_value_def)
  have 1: "layer_op example_reader (PyStr ''abc'') True (\<lambda>k. 0) = (Inr (- 1, None, None), example_reader)"
    by (rule explicit_access_out_of_range[OF ol]) (use a in simp_all)
  have 2: "layer_op example_reader (PyInt 2) True (\<lambda>k. 0) = (Inr (- 1, None, None), example_reader)"
    by (rule explicit_access_out_of_range[OF ol]) simp_all
  have 3: "layer_op example_reader (PyStr '' -1 '') False (\<lambda>k. 0) = (Inr (- 1, None, None), example_reader)"
    by (rule explicit_access_out_of_range[OF ol]) (use b in simp_all)
  from ol a b 1 2 3 show ?thesis by simp
qed

section \<open>Valid accesses\<close>

lemma example_pipeline_reader_eq:
  "example_pipeline_reader =
     example_reader\<lparr>preprocessors := [Some crop_layer, None, Some flip_layer, Some crop_layer]\<rparr>"
  by (simp add: example_pipeline_reader_def add_preprocessing_layers_def prepare_preprocessors_def
      crop_layer_def flip_layer_def example_reader_eq)









section \<open>The pipeline of a valid access\<close>

text \<open>
  The specification's pipeline, stage by stage: an absent stage is skipped, a stage that
  is present is applied before the stages after it, and two lists of stages one after
  the other are the pipeline of the concatenated list.
\<close>

lemma apply_pipeline_Nil: "apply_pipeline [] io st = Inr st"
  by (simp add: apply_pipeline_def List.map_filter_simps)

lemma apply_pipeline_None: "apply_pipeline (None # stages) io st = apply_pipeline stages io st"
  by (simp add: apply_pipeline_def List.map_filter_simps)

lemma apply_pipeline_Some:
  "apply_pipeline (Some stage # stages) io st =
     (case apply_stage io stage st of Inl e \<Rightarrow> Inl e | Inr st' \<Rightarrow> apply_pipeline stages io st')"
  by (simp add: apply_pipeline_def List.map_filter_simps foldl_stage_Inl split: sum.splits)

lemma apply_pipeline_append:
  "apply_pipeline (stages @ stages') io st =
     (case apply_pipeline stages io st of Inl e \<Rightarrow> Inl e | Inr st' \<Rightarrow> apply_pipeline stages' io st')"
proof (induction stages arbitrary: st)
  case Nil
  show ?case by (simp add: apply_pipeline_Nil)
next
  case (Cons entry stages)
  show ?case
    by (cases entry) (simp_all add: apply_pipeline_None apply_pipeline_Some Cons.IH split: sum.splits)
qed

lemma fetch_transformed_record:
  assumes "output_list self = Some ol" "0 \<le> i" "i < int (length ol)" "preprocessors self \<noteq> []"
  shows "fetch self (PyInt i) g = transformed_record (preprocessors self) (ol ! nat i) i g"
  using assms
  by (simp add: fetch_valid[OF assms(1-3)] transformed_record_def Let_def run_layers_apply_pipeline)

text \<open>
  Claim C4. With a pipeline that is not empty, every valid access (explicit,
  sequential or random) returns what the specification's pipeline gives on the record's
  two mappings: the stages present are applied in list order, an absent stage is
  skipped, a randomised stage is re-randomised just before its call, is given the
  interp-order mapping and leaves the mask alone, and every other stage is given the
  mask, which starts as \<open>None\<close>, and returns the next one. The reader's own list of
  layers is unchanged.
\<close>

theorem layer_op_applies_pipeline:
  assumes "output_list self = Some ol" "0 \<le> i" "i < int (length ol)" "preprocessors self \<noteq> []"
  shows "layer_op self (PyInt i) shuffle g
           = (transformed_record (preprocessors self) (ol ! nat i) i g, self) \<and>
         (current_id self + 1 = i \<longrightarrow>
            layer_op self PyNone False g
              = (transformed_record (preprocessors self) (ol ! nat i) i g, self\<lparr>current_id := i\<rparr>)) \<and>
         (int (g 0 mod length ol) = i \<longrightarrow>
            layer_op self PyNone True g
              = (transformed_record (preprocessors self) (ol ! nat i) i (\<lambda>k. g (Suc k)), self))"
proof -
  have 1: "layer_op self (PyInt i) shuffle g
           = (transformed_record (preprocessors self) (ol ! nat i) i g, self)"
    using fetch_transformed_record[OF assms, of g] by (simp add: layer_op_def)
  have 2: "layer_op self PyNone False g
              = (transformed_record (preprocessors self) (ol ! nat i) i g, self\<lparr>current_id := i\<rparr>)"
    if "current_id self + 1 = i"
  proof -
    let ?s = "self\<lparr>current_id := i\<rparr>"
    have "fetch ?s (PyInt i) g = transformed_record (preprocessors ?s) (ol ! nat i) i g"
      by (rule fetch_transformed_record) (use assms in simp_all)
    with that show ?thesis by (simp add: layer_op_def Let_def)
  qed
  have 3: "layer_op self PyNone True g
              = (transformed_record (preprocessors self) (ol ! nat i) i (\<lambda>k. g (Suc k)), self)"
    if "int (g 0 mod length ol) = i"
  proof -
    from assms have "length ol \<noteq> 0" by auto
    with that assms(1) fetch_transformed_record[OF assms, of "\<lambda>k. g (Suc k)"]
    show ?thesis by (simp add: layer_op_def py_len_def randint_def)
  qed
  from 1 2 3 show ?thesis by blast
qed

theorem layer_op_applies_pipeline_witness:
  "preprocessors example_pipeline_reader = [Some crop_layer, None, Some flip_layer, Some crop_layer] \<and>
   length (the (output_list example_pipeline_reader)) = 2 \<and>
   current_id example_pipeline_reader + 1 = 0 \<and>
   int ((\<lambda>k. k) (0::nat) mod 2) = 0 \<and>
   layer_op example_pipeline_reader (PyInt 0) True (\<lambda>k. k)
     = (Inr (0, Some [(''image'', [''a1.nii'', ''crop'', ''keep'', ''reuse'']),
                      (''label'', [''l1.nii'', ''crop'', ''keep'', ''reuse''])],
                Some [(''image'', [3]), (''label'', [0])]), example_pipeline_reader) \<and>
   layer_op example_pipeline_reader PyNone False (\<lambda>k. k)
     = (Inr (0, Some [(''image'', [''a1.nii'', ''crop'', ''keep'', ''reuse'']),
                      (''label'', [''l1.nii'', ''crop'', ''keep'', ''reuse''])],
                Some [(''image'', [3]), (''label'', [0])]),
        example_pipeline_reader\<lparr>current_id := 0\<rparr>) \<and>
   layer_op example_pipeline_reader PyNone True (\<lambda>k. k)
     = (Inr (0, Some [(''image'', [''a1.nii'', ''crop'', ''flip'', ''reuse'']),
                      (''label'', [''l1.nii'', ''crop'', ''flip'', ''reuse''])],
                Some [(''image'', [3]), (''label'', [0])]), example_pipeline_reader)"
proof -
  let ?ol = "the (output_list example_pipeline_reader)"
  have ol: "output_list example_pipeline_reader = Some ?ol"
    by (simp add: example_pipeline_reader_eq example_reader_eq)
  have len: "length ?ol = 2"
    by (simp add: example_pipeline_reader_eq example_reader_eq)
  have pre: "preprocessors example_pipeline_reader
               = [Some crop_layer, None, Some flip_layer, Some crop_layer]"
    by (simp add: example_pipeline_reader_eq)
  have cur: "current_id example_pipeline_reader + 1 = 0"
    by (simp add: example_pipeline_reader_eq example_reader_eq)
  have rec: "?ol ! 0 =
      [(''image'', \<lparr>get_data = [''a1.nii''], shape = [2, 2, 3], dtype = ''f'', interp_order = [3]\<rparr>),
       (''label'', \<lparr>get_data = [''l1.nii''], shape = [2, 2, 3], dtype = ''f'', interp_order = [0]\<rparr>)]"
    by (simp add: example_pipeline_reader_eq example_reader_eq)
  have t1: "transformed_record (preprocessors example_pipeline_reader) (?ol ! nat 0) 0 (\<lambda>k. k)
     = Inr (0, Some [(''image'', [''a1.nii'', ''crop'', ''keep'', ''reuse'']),
                     (''label'', [''l1.nii'', ''crop'', ''keep'', ''reuse''])],
               Some [(''image'', [3]), (''label'', [0])])"
    by (simp add: pre rec transformed_record_def apply_pipeline_def apply_stage_def
          List.map_filter_simps dict_comp_def crop_layer_def flip_layer_def)
  have t2: "transformed_record (preprocessors example_pipeline_reader) (?ol ! nat 0) 0 (\<lambda>k. Suc k)
     = Inr (0, Some [(''image'', [''a1.nii'', ''crop'', ''flip'', ''reuse'']),
                     (''label'', [''l1.nii'', ''crop'', ''flip'', ''reuse''])],
               Some [(''image'', [3]), (''label'', [0])])"
    by (simp add: pre rec transformed_record_def apply_pipeline_def apply_stage_def
          List.map_filter_simps dict_comp_def crop_layer_def flip_layer_def)
  from layer_op_applies_pipeline[OF ol, of 0 True "\<lambda>k. k"] len pre cur t1 t2
  show ?thesis by simp
qed

section \<open>Sequential access\<close>

lemma sequential_calls_from:
  assumes "output_list self = Some ol"
    and "list_all stage_returns (preprocessors self)"
    and "current_id self = int c - 1" and "c \<le> length ol"
    and "length gs = Suc (length ol - c)"
  shows "map (map_sum (\<lambda>e. e) fst) (consecutive_calls self (map (\<lambda>g. (PyNone, False, g)) gs))
           = map (\<lambda>k. Inr (int k)) [c ..< length ol] @ [Inr (- 1)] \<and>
         last (consecutive_calls self (map (\<lambda>g. (PyNone, False, g)) gs)) = Inr (- 1, None, None)"
  using assms
proof (induction gs arbitrary: self c)
  case Nil
  then show ?case by simp
next
  case (Cons g gs)
  let ?s = "self\<lparr>current_id := int c\<rparr>"
  have l: "layer_op self PyNone False g = (fetch ?s (PyInt (int c)) g, ?s)"
    using Cons.prems(3) by (simp add: layer_op_def Let_def)
  have ol: "output_list ?s = Some ol" using Cons.prems(1) by simp
  show ?case
  proof (cases "c < length ol")
    case True
    obtain r where r: "fetch ?s (PyInt (int c)) g = Inr (int c, r)"
    proof (cases "preprocessors self = []")
      case True
      with fetch_valid[OF ol, of "int c" g] \<open>c < length ol\<close> that show ?thesis
        by (simp add: Let_def)
    next
      case False
      from run_layers_returns[OF Cons.prems(2)] obtain d msk g' where
        "run_layers (preprocessors self)
           (dict_comp (\<lambda>(field, img). (field, get_data img)) (ol ! c))
           (dict_comp (\<lambda>(field, img). (field, interp_order img)) (ol ! c)) None g
         = Inr (d, msk, g')"
        by (metis prod_cases3)
      with False fetch_valid[OF ol, of "int c" g] \<open>c < length ol\<close> that show ?thesis
        by (simp add: Let_def)
    qed
    have ih: "map (map_sum (\<lambda>e. e) fst) (consecutive_calls ?s (map (\<lambda>g. (PyNone, False, g)) gs))
           = map (\<lambda>k. Inr (int k)) [Suc c ..< length ol] @ [Inr (- 1)] \<and>
         last (consecutive_calls ?s (map (\<lambda>g. (PyNone, False, g)) gs)) = Inr (- 1, None, None)"
      by (rule Cons.IH) (use Cons.prems True in \<open>simp_all add: Suc_diff_Suc\<close>)
    from ih have ne: "consecutive_calls ?s (map (\<lambda>g. (PyNone, False, g)) gs) \<noteq> []"
      by auto
    from l r ih ne True show ?thesis
      by (simp add: upt_conv_Cons)
  next
    case False
    with Cons.prems have c: "c = length ol" and gs: "gs = []" by simp_all
    from fetch_sentinel[of "PyInt (int c)" ol ?s g] ol c
    have "fetch ?s (PyInt (int c)) g = Inr (- 1, None, None)" by simp
    with l c gs show ?thesis by simp
  qed
qed

text \<open>
  Claim C2. On a reader with \<open>N\<close> records whose cursor is still \<open>-1\<close> (and whose
  layers, if any, do not raise), \<open>N + 1\<close> sequential calls return the indices
  \<open>0, 1, \<dots>, N - 1\<close> in this order and then the sentinel \<open>(-1, None, None)\<close>.
\<close>

theorem sequential_access_serves_in_order:
  assumes "current_id self = - 1" and "output_list self = Some ol"
    and "list_all stage_returns (preprocessors self)"
    and "length gs = Suc (length ol)"
  shows "map (map_sum (\<lambda>e. e) fst) (consecutive_calls self (map (\<lambda>g. (PyNone, False, g)) gs))
           = map (\<lambda>k. Inr (int k)) [0 ..< length ol] @ [Inr (- 1)] \<and>
         last (consecutive_calls self (map (\<lambda>g. (PyNone, False, g)) gs)) = Inr (- 1, None, None)"
  using sequential_calls_from[OF assms(2,3), of 0 gs] assms(1,4) by simp

theorem sequential_access_serves_in_order_witness:
  "current_id example_reader = - 1 \<and>
   length (the (output_list example_reader)) = 2 \<and>
   list_all stage_returns (preprocessors example_reader) \<and>
   consecutive_calls example_reader (map (\<lambda>g. (PyNone, False, g)) [\<lambda>k. 0, \<lambda>k. 0, \<lambda>k. 0])
     = [Inr (0, Some [(''image'', [''a1.nii'']), (''label'', [''l1.nii''])],
                Some [(''image'', [3]), (''label'', [0])]),
        Inr (1, Some [(''image'', [''a2.nii'']), (''label'', [''l2.nii''])],
                Some [(''image'', [3]), (''label'', [0])]),
        Inr (- 1, None, None)] \<and>
   map (map_sum (\<lambda>e. e) fst)
       (consecutive_calls example_reader (map (\<lambda>g. (PyNone, False, g)) [\<lambda>k. 0, \<lambda>k. 0, \<lambda>k. 0]))
     = [Inr 0, Inr 1, Inr (- 1)]"
proof -
  let ?ol = "the (output_list example_reader)"
  have cur: "current_id example_reader = - 1" by (simp add: example_reader_eq)
  have ol: "output_list example_reader = Some ?ol" by (simp add: example_reader_eq)
  have len: "length ?ol = 2" by (simp add: example_reader_eq)
  have ret: "list_all stage_returns (preprocessors example_reader)"
    by (simp add: example_reader_eq)
  have ev: "consecutive_calls example_reader (map (\<lambda>g. (PyNone, False, g)) [\<lambda>k. 0, \<lambda>k. 0, \<lambda>k. 0])
     = [Inr (0, Some [(''image'', [''a1.nii'']), (''label'', [''l1.nii''])],
                Some [(''image'', [3]), (''label'', [0])]),
        Inr (1, Some [(''image'', [''a2.nii'']), (''label'', [''l2.nii''])],
                Some [(''image'', [3]), (''label'', [0])]),
        Inr (- 1, None, None)]"
    by (simp add: example_reader_eq access_eval)
  from sequential_access_serves_in_order[OF cur ol ret, of "[\<lambda>k. 0, \<lambda>k. 0, \<lambda>k. 0]"] len
  have "map (map_sum (\<lambda>e. e) fst)
       (consecutive_calls example_reader (map (\<lambda>g. (PyNone, False, g)) [\<lambda>k. 0, \<lambda>k. 0, \<lambda>k. 0]))
     = [Inr 0, Inr 1, Inr (- 1)]"
    by (simp add: upt_rec)
  with cur len ret ev show ?thesis by simp
qed

section \<open>Merging the manifests: which calls fail\<close>

lemma read_csv_rows:
  "map fst (df_rows (read_csv csv modality_name)) = map fst (csv_rows csv)"
  "length (df_rows (read_csv csv modality_name)) = length (csv_rows csv)"
  "df_key_dtype (read_csv csv modality_name) = key_dtype csv"
  by (simp_all add: read_csv_def split_def)

lemma pandas_merge_same_dtype:
  "df_key_dtype left = df_key_dtype right
     \<Longrightarrow> \<exists>fl. pandas_merge left right = Inr fl \<and> df_key_dtype fl = df_key_dtype left"
  by (simp add: pandas_merge_def)

lemma merge_loop_missing_file:
  assumes "\<exists>(modality_name, sec) \<in> set data_param. fs (csv_file sec) = None"
    and "\<forall>(modality_name, sec) \<in> set data_param. \<forall>csv.
           fs (csv_file sec) = Some csv \<longrightarrow> key_dtype csv = t"
    and "\<forall>fl. file_list = Some fl \<longrightarrow> df_key_dtype fl = t"
  shows "merge_loop fs data_param file_list warnings = Inl IOError"
  using assms
proof (induction data_param arbitrary: file_list warnings)
  case Nil
  then show ?case by simp
next
  case (Cons entry rest)
  obtain modality_name sec where e: "entry = (modality_name, sec)" by (cases entry)
  show ?case
  proof (cases "fs (csv_file sec)")
    case None
    with e show ?thesis by simp
  next
    case (Some csv)
    with Cons.prems(1) e
    have miss: "\<exists>(modality_name, sec) \<in> set rest. fs (csv_file sec) = None" by auto
    from Cons.prems(2) have uni: "\<forall>(modality_name, sec) \<in> set rest. \<forall>csv.
           fs (csv_file sec) = Some csv \<longrightarrow> key_dtype csv = t" by simp
    from Cons.prems(2) e Some have k: "key_dtype csv = t" by simp
    show ?thesis
    proof (cases file_list)
      case None
      have "merge_loop fs rest (Some (read_csv csv modality_name)) warnings = Inl IOError"
        by (rule Cons.IH[OF miss uni]) (simp add: read_csv_rows k)
      with e Some None show ?thesis by simp
    next
      case (Some fl)
      with Cons.prems(3) have "df_key_dtype fl = df_key_dtype (read_csv csv modality_name)"
        by (simp add: read_csv_rows k)
      from pandas_merge_same_dtype[OF this] obtain fl' where
        m: "pandas_merge fl (read_csv csv modality_name) = Inr fl'"
        and d: "df_key_dtype fl' = df_key_dtype fl" by blast
      have "merge_loop fs rest (Some fl') ws = Inl IOError" for ws
        by (rule Cons.IH[OF miss uni]) (use d Some Cons.prems(3) in simp)
      with e \<open>fs (csv_file sec) = Some csv\<close> Some m show ?thesis by (simp add: Let_def)
    qed
  qed
qed

lemma merge_loop_all_files:
  assumes "\<forall>(modality_name, sec) \<in> set data_param.
             \<exists>csv. fs (csv_file sec) = Some csv \<and> key_dtype csv = t"
    and "\<forall>fl. file_list = Some fl \<longrightarrow> df_key_dtype fl = t"
    and "file_list \<noteq> None \<or> data_param \<noteq> []"
  shows "\<exists>fl ws. merge_loop fs data_param file_list warnings = Inr (Some fl, ws)"
  using assms
proof (induction data_param arbitrary: file_list warnings)
  case Nil
  then show ?case by auto
next
  case (Cons entry rest)
  obtain modality_name sec where e: "entry = (modality_name, sec)" by (cases entry)
  from Cons.prems(1) e obtain csv where f: "fs (csv_file sec) = Some csv"
    and k: "key_dtype csv = t" by auto
  from Cons.prems(1) have r: "\<forall>(modality_name, sec) \<in> set rest.
             \<exists>csv. fs (csv_file sec) = Some csv \<and> key_dtype csv = t" by simp
  show ?case
  proof (cases file_list)
    case None
    have "\<exists>fl ws. merge_loop fs rest (Some (read_csv csv modality_name)) warnings = Inr (Some fl, ws)"
      by (rule Cons.IH[OF r]) (simp_all add: read_csv_rows k)
    with e f None show ?thesis by simp
  next
    case (Some fl)
    with Cons.prems(2) have "df_key_dtype fl = df_key_dtype (read_csv csv modality_name)"
      by (simp add: read_csv_rows k)
    from pandas_merge_same_dtype[OF this] obtain fl' where
      m: "pandas_merge fl (read_csv csv modality_name) = Inr fl'"
      and d: "df_key_dtype fl' = df_key_dtype fl" by blast
    have "\<exists>fl'' ws'. merge_loop fs rest (Some fl') ws = Inr (Some fl'', ws')" for ws
      by (rule Cons.IH[OF r]) (use d Some Cons.prems(2) in simp_all)
    with e f Some m show ?thesis by (simp add: Let_def)
  qed
qed

text \<open>
  With at least one manifest, and the \<open>subject_id\<close> columns of the manifests all of
  one type, the call raises \<open>IOError\<close> exactly when a csv file is missing or the
  joint table is empty, and returns the joint table otherwise.
\<close>

lemma merge_outcome:
  assumes "data_param \<noteq> []"
    and "\<forall>(modality_name, sec) \<in> set data_param. \<forall>csv.
           fs (csv_file sec) = Some csv \<longrightarrow> key_dtype csv = t"
  shows "(load_and_merge_csv_files fs data_param = Inl IOError \<longleftrightarrow>
            (\<exists>(modality_name, sec) \<in> set data_param. fs (csv_file sec) = None) \<or>
            (\<exists>fl ws. merge_loop fs data_param None [] = Inr (Some fl, ws) \<and> df_size fl = 0)) \<and>
         (load_and_merge_csv_files fs data_param \<noteq> Inl IOError \<longrightarrow>
            (\<exists>fl ws. merge_loop fs data_param None [] = Inr (Some fl, ws) \<and>
               load_and_merge_csv_files fs data_param = Inr (fl, ws)))"
proof (cases "\<exists>(modality_name, sec) \<in> set data_param. fs (csv_file sec) = None")
  case True
  from merge_loop_missing_file[OF this assms(2), of None "[]"] show ?thesis
    using True by (simp add: load_and_merge_csv_files_def)
next
  case False
  with assms(2) have "\<forall>(modality_name, sec) \<in> set data_param.
             \<exists>csv. fs (csv_file sec) = Some csv \<and> key_dtype csv = t"
    by fastforce
  from merge_loop_all_files[OF this, of None "[]"] assms(1)
  obtain fl ws where "merge_loop fs data_param None [] = Inr (Some fl, ws)" by auto
  with False show ?thesis
    by (auto simp: load_and_merge_csv_files_def)
qed

text \<open>
  Claim C6. For a collection of manifests that is not empty, with \<open>subject_id\<close>
  columns of one type, the claim holds (\<open>merge_outcome\<close>): \<open>IOError\<close> is raised
  exactly when a csv file is missing or the joint table has no rows, and otherwise the
  joint table is returned. For the empty collection the loop never assigns
  \<open>_file_list\<close>, and reading \<open>_file_list.size\<close> raises \<open>AttributeError\<close>:
  neither the \<open>IOError\<close> of the empty-result check nor a table.
\<close>

theorem merge_of_no_manifest_raises_attribute_error:
  "load_and_merge_csv_files fs [] = Inl AttributeError"
  by (simp add: load_and_merge_csv_files_def)

section \<open>The active fields after initialisation\<close>

text \<open>
  Claim C7. After \<open>initialise_reader\<close> the field names are those of the given names
  whose entry in the task section is present and not empty. When none is left the call
  raises: \<open>ValueError\<close> when no name was given at all, and otherwise the
  \<open>AttributeError\<close> of merging no manifest.
\<close>

theorem initialise_reader_active_fields:
  "self_names (snd (initialise_reader create_instance fs self data_param task_param))
     = filter (\<lambda>name. truthy (map_of task_param name)) (self_names self) \<and>
   (filter (\<lambda>name. truthy (map_of task_param name)) (self_names self) = [] \<longrightarrow>
      fst (initialise_reader create_instance fs self data_param task_param)
        = Some (if self_names self = [] then ValueError else AttributeError))"
  by (auto simp: initialise_reader_def Let_def dict_comp_def load_and_merge_csv_files_def
           split: sum.splits prod.splits)

theorem initialise_reader_active_fields_witness:
  "filter (\<lambda>name. truthy (map_of example_task_param name)) [''weight'', ''mask''] = [] \<and>
   initialise_reader example_factory example_fs
       (ImageReader [''weight'', ''mask'']) example_data_param example_task_param
     = (Some AttributeError,
        (ImageReader [] :: (string list, unit, nat) image_reader)\<lparr>self_input_sources := Some []\<rparr>) \<and>
   self_names example_reader = [''image'', ''label'']"
proof -
  have f: "filter (\<lambda>name. truthy (map_of example_task_param name)) [''weight'', ''mask''] = []"
    by (simp add: example_task_param_def truthy_def)
  have g: "filter (\<lambda>name. truthy (map_of example_task_param name)) [''image'', ''label'', ''weight'']
             = [''image'', ''label'']"
    by (simp add: example_task_param_def truthy_def)
  let ?r = "initialise_reader example_factory example_fs
       (ImageReader [''weight'', ''mask''] :: (string list, unit, nat) image_reader)
       example_data_param example_task_param"
  have n: "self_names (ImageReader [''weight'', ''mask''] :: (string list, unit, nat) image_reader)
             = [''weight'', ''mask'']"
    "self_names (ImageReader [''image'', ''label'', ''weight''] :: (string list, unit, nat) image_reader)
             = [''image'', ''label'', ''weight'']"
    by (simp_all add: ImageReader_def)
  have 1: "self_names (snd ?r) = []" "fst ?r = Some AttributeError"
    using initialise_reader_active_fields
         [of example_factory example_fs
             "ImageReader [''weight'', ''mask''] :: (string list, unit, nat) image_reader"
             example_data_param example_task_param, unfolded n f]
    by simp_all
  have 2: "self_input_sources (snd ?r) = Some []"
    by (simp add: initialise_reader_def ImageReader_def truthy_def example_task_param_def Let_def
        dict_comp_def load_and_merge_csv_files_def)
  have 3: "snd ?r = (ImageReader [] :: (string list, unit, nat) image_reader)\<lparr>self_input_sources := Some []\<rparr>"
    by (simp add: initialise_reader_def ImageReader_def truthy_def example_task_param_def Let_def
        dict_comp_def load_and_merge_csv_files_def)
  have 4: "self_names example_reader = [''image'', ''label'']"
    using initialise_reader_active_fields
         [of example_factory example_fs
             "ImageReader [''image'', ''label'', ''weight''] :: (string list, unit, nat) image_reader"
             example_data_param example_task_param, unfolded n g]
    by (simp add: example_reader_def)
  from 1 3 have "?r = (Some AttributeError,
        (ImageReader [] :: (string list, unit, nat) image_reader)\<lparr>self_input_sources := Some []\<rparr>)"
    by (simp add: prod_eq_iff)
  with f 4 show ?thesis by simp
qed

section \<open>Merging the manifests: the number of rows\<close>

lemma merge_rows:
  "pandas_merge left right = Inr fl \<Longrightarrow>
     df_rows fl = concat (map (\<lambda>(subject_id, vals).
                      map (\<lambda>(_, vals'). (subject_id, vals @ vals'))
                        (filter (\<lambda>(subject_id', _). subject_id' = subject_id) (df_rows right)))
                    (df_rows left)) \<and>
     df_key_dtype fl = df_key_dtype left"
  by (auto simp: pandas_merge_def split: if_splits)

lemma merge_keys:
  assumes "pandas_merge left right = Inr fl"
  shows "map fst (df_rows fl)
     = concat (map (\<lambda>row. replicate (length (filter (\<lambda>row'. fst row' = fst row) (df_rows right))) (fst row))
                (df_rows left))"
proof -
  have "map fst (concat (map (\<lambda>(subject_id, vals).
                    map (\<lambda>(_, vals'). (subject_id, vals @ vals'))
                      (filter (\<lambda>(subject_id', _). subject_id' = subject_id) rs)) ls))
     = concat (map (\<lambda>row. replicate (length (filter (\<lambda>row'. fst row' = fst row) rs)) (fst row)) ls)"
    for ls :: "(cell \<times> cell list) list" and rs :: "(cell \<times> cell list) list"
  proof (induction ls)
    case Nil
    show ?case by simp
  next
    case (Cons row ls)
    show ?case using Cons.IH
      by (simp add: split_def o_def map_replicate_const)
  qed
  then show ?thesis by (simp add: merge_rows[OF assms])
qed

lemma count_key_distinct:
  "distinct (map fst rs) \<Longrightarrow>
     length (filter (\<lambda>row'. fst row' = k) rs) = (if k \<in> fst ` set rs then 1 else 0)"
  by (induction rs) (auto simp: image_iff)

lemma merge_keys_distinct_right:
  assumes "pandas_merge left right = Inr fl" and "distinct (map fst (df_rows right))"
  shows "map fst (df_rows fl)
           = filter (\<lambda>k. k \<in> fst ` set (df_rows right)) (map fst (df_rows left))"
proof -
  have "concat (map (\<lambda>row. replicate (length (filter (\<lambda>row'. fst row' = fst row) (df_rows right))) (fst row)) ls)
          = filter (\<lambda>k. k \<in> fst ` set (df_rows right)) (map fst ls)" for ls
    by (induction ls) (simp_all add: count_key_distinct[OF assms(2)])
  then show ?thesis by (simp add: merge_keys[OF assms(1)])
qed

lemma merge_length_le_left:
  assumes "pandas_merge left right = Inr fl" and "distinct (map fst (df_rows right))"
  shows "length (df_rows fl) \<le> length (df_rows left)"
proof -
  have "length (df_rows fl) = length (map fst (df_rows fl))" by simp
  also have "\<dots> \<le> length (map fst (df_rows left))"
    unfolding merge_keys_distinct_right[OF assms] by (rule length_filter_le)
  finally show ?thesis by simp
qed

lemma merge_distinct:
  assumes "pandas_merge left right = Inr fl"
    and "distinct (map fst (df_rows left))" "distinct (map fst (df_rows right))"
  shows "distinct (map fst (df_rows fl))"
  unfolding merge_keys_distinct_right[OF assms(1,3)] using assms(2) by simp

lemma merge_length_le_right:
  assumes "pandas_merge left right = Inr fl"
    and "distinct (map fst (df_rows left))" "distinct (map fst (df_rows right))"
  shows "length (df_rows fl) \<le> length (df_rows right)"
proof -
  let ?ks = "map fst (df_rows fl)"
  have "length (df_rows fl) = length ?ks" by simp
  also have "\<dots> = card (set ?ks)"
    using distinct_card[OF merge_distinct[OF assms]] by simp
  also have "\<dots> \<le> card (fst ` set (df_rows right))"
    by (rule card_mono) (auto simp: merge_keys_distinct_right[OF assms(1,3)])
  also have "\<dots> \<le> length (df_rows right)"
    by (metis card_length length_map set_map)
  finally show ?thesis .
qed

lemma merge_loop_append:
  "merge_loop fs (xs @ ys) file_list warnings =
     (case merge_loop fs xs file_list warnings of
        Inl e \<Rightarrow> Inl e
      | Inr (file_list', warnings') \<Rightarrow> merge_loop fs ys file_list' warnings')"
proof (induction xs arbitrary: file_list warnings)
  case Nil
  show ?case by simp
next
  case (Cons entry xs)
  obtain modality_name sec where e: "entry = (modality_name, sec)" by (cases entry)
  show ?case
    by (simp add: e Cons.IH Let_def split: option.splits sum.splits)
qed

text \<open>
  One join, on manifests whose ids are of one type and do not repeat: the joint table
  keeps these two properties, has at most as many rows as either side, and a warning
  is logged exactly when it has fewer rows than the table before.
\<close>

lemma merge_step:
  assumes "fs (csv_file sec) = Some csv" and "key_dtype csv = t"
    and "distinct (map fst (csv_rows csv))"
    and "distinct (map fst (df_rows fl))" and "df_key_dtype fl = t"
  shows "\<exists>fl'. merge_loop fs [(modality_name, sec)] (Some fl) ws
             = Inr (Some fl', if length (df_rows fl') < length (df_rows fl)
                              then ws @ [csv_file sec] else ws) \<and>
           distinct (map fst (df_rows fl')) \<and> df_key_dtype fl' = t \<and>
           length (df_rows fl') \<le> length (df_rows fl) \<and>
           length (df_rows fl') \<le> length (csv_rows csv)"
proof -
  let ?csv = "read_csv csv modality_name"
  have dc: "distinct (map fst (df_rows ?csv))" using assms(3) by (simp add: read_csv_rows)
  have "df_key_dtype fl = df_key_dtype ?csv" using assms(2,5) by (simp add: read_csv_rows)
  from pandas_merge_same_dtype[OF this] obtain fl' where
    m: "pandas_merge fl ?csv = Inr fl'" and k: "df_key_dtype fl' = df_key_dtype fl"
    by blast
  have l1: "length (df_rows fl') \<le> length (df_rows fl)"
    by (rule merge_length_le_left[OF m dc])
  have l2: "length (df_rows fl') \<le> length (csv_rows csv)"
    using merge_length_le_right[OF m assms(4) dc] by (simp add: read_csv_rows)
  have d: "distinct (map fst (df_rows fl'))"
    by (rule merge_distinct[OF m assms(4) dc])
  have "(length (df_rows fl') \<noteq> length (df_rows fl)) = (length (df_rows fl') < length (df_rows fl))"
    using l1 by auto
  then have "merge_loop fs [(modality_name, sec)] (Some fl) ws
             = Inr (Some fl', if length (df_rows fl') < length (df_rows fl)
                              then ws @ [csv_file sec] else ws)"
    using assms(1) m by (simp add: Let_def)
  with d k assms(5) l1 l2 show ?thesis by auto
qed

lemma merge_loop_distinct:
  assumes "\<forall>(modality_name, sec) \<in> set rest.
             \<exists>csv. fs (csv_file sec) = Some csv \<and> key_dtype csv = t \<and>
                   distinct (map fst (csv_rows csv))"
    and "distinct (map fst (df_rows fl))" and "df_key_dtype fl = t"
  shows "\<exists>fl' later. merge_loop fs rest (Some fl) ws = Inr (Some fl', ws @ later) \<and>
           distinct (map fst (df_rows fl')) \<and> df_key_dtype fl' = t \<and>
           length (df_rows fl') \<le> length (df_rows fl) \<and>
           (\<forall>(modality_name, sec) \<in> set rest. \<forall>csv.
               fs (csv_file sec) = Some csv \<longrightarrow> length (df_rows fl') \<le> length (csv_rows csv))"
  using assms
proof (induction rest arbitrary: fl ws)
  case Nil
  then show ?case by simp
next
  case (Cons entry rest)
  obtain modality_name sec where e: "entry = (modality_name, sec)" by (cases entry)
  from Cons.prems(1) e obtain csv where
    f: "fs (csv_file sec) = Some csv" and k: "key_dtype csv = t"
    and d: "distinct (map fst (csv_rows csv))"
    by auto
  let ?ws = "\<lambda>fl1. if length (df_rows fl1) < length (df_rows fl) then ws @ [csv_file sec] else ws"
  from merge_step[where fs = fs and sec = sec and modality_name = modality_name and ws = ws,
         OF f k d Cons.prems(2,3)] obtain fl1 where
    s: "merge_loop fs [(modality_name, sec)] (Some fl) ws = Inr (Some fl1, ?ws fl1)"
    and d1: "distinct (map fst (df_rows fl1))" and k1: "df_key_dtype fl1 = t"
    and l1: "length (df_rows fl1) \<le> length (df_rows fl)"
    and l2: "length (df_rows fl1) \<le> length (csv_rows csv)"
    by blast
  from Cons.prems(1) have r: "\<forall>(modality_name, sec) \<in> set rest.
             \<exists>csv. fs (csv_file sec) = Some csv \<and> key_dtype csv = t \<and>
                   distinct (map fst (csv_rows csv))"
    by simp
  from Cons.IH[OF r d1 k1, of "?ws fl1"] obtain fl' later where
    m: "merge_loop fs rest (Some fl1) (?ws fl1) = Inr (Some fl', ?ws fl1 @ later)"
    and dd: "distinct (map fst (df_rows fl'))" and kk: "df_key_dtype fl' = t"
    and le: "length (df_rows fl') \<le> length (df_rows fl1)"
    and all: "\<forall>(modality_name, sec) \<in> set rest. \<forall>csv.
               fs (csv_file sec) = Some csv \<longrightarrow> length (df_rows fl') \<le> length (csv_rows csv)"
    by blast
  have "merge_loop fs (entry # rest) (Some fl) ws
          = merge_loop fs ([(modality_name, sec)] @ rest) (Some fl) ws"
    by (simp add: e)
  also have "\<dots> = Inr (Some fl', ?ws fl1 @ later)"
    unfolding merge_loop_append using s m by simp
  finally have step: "merge_loop fs (entry # rest) (Some fl) ws = Inr (Some fl', ?ws fl1 @ later)" .
  obtain later' where w: "?ws fl1 @ later = ws @ later'"
    by (cases "length (df_rows fl1) < length (df_rows fl)") auto
  have a: "length (df_rows fl') \<le> length (df_rows fl)" using le l1 by simp
  have b: "\<forall>(modality_name, sec) \<in> set (entry # rest). \<forall>csv.
               fs (csv_file sec) = Some csv \<longrightarrow> length (df_rows fl') \<le> length (csv_rows csv)"
    using all e f le l2 by auto
  from step w dd kk a b show ?case by auto
qed

lemma merge_loop_from_none:
  assumes "data_param \<noteq> []"
    and "\<forall>(modality_name, sec) \<in> set data_param.
           \<exists>csv. fs (csv_file sec) = Some csv \<and> key_dtype csv = t \<and>
                 distinct (map fst (csv_rows csv))"
  shows "\<exists>fl ws. merge_loop fs data_param None [] = Inr (Some fl, ws) \<and>
           distinct (map fst (df_rows fl)) \<and> df_key_dtype fl = t \<and>
           (\<forall>(modality_name, sec) \<in> set data_param. \<forall>csv.
               fs (csv_file sec) = Some csv \<longrightarrow> length (df_rows fl) \<le> length (csv_rows csv))"
proof -
  from assms(1) obtain modality_name sec rest where dp: "data_param = (modality_name, sec) # rest"
    by (cases data_param) auto
  from assms(2) dp obtain csv where
    f: "fs (csv_file sec) = Some csv" and k: "key_dtype csv = t"
    and d: "distinct (map fst (csv_rows csv))"
    by auto
  let ?csv = "read_csv csv modality_name"
  from assms(2) dp have r: "\<forall>(modality_name, sec) \<in> set rest.
             \<exists>csv. fs (csv_file sec) = Some csv \<and> key_dtype csv = t \<and>
                   distinct (map fst (csv_rows csv))"
    by simp
  have dc: "distinct (map fst (df_rows ?csv))" using d by (simp add: read_csv_rows)
  have kc: "df_key_dtype ?csv = t" using k by (simp add: read_csv_rows)
  from merge_loop_distinct[OF r dc kc, of "[]"] obtain fl ws where
    m: "merge_loop fs rest (Some ?csv) [] = Inr (Some fl, ws)"
    and dd: "distinct (map fst (df_rows fl))" and kk: "df_key_dtype fl = t"
    and le: "length (df_rows fl) \<le> length (df_rows ?csv)"
    and all: "\<forall>(modality_name, sec) \<in> set rest. \<forall>csv.
               fs (csv_file sec) = Some csv \<longrightarrow> length (df_rows fl) \<le> length (csv_rows csv)"
    by auto
  have loop: "merge_loop fs data_param None [] = Inr (Some fl, ws)"
    using dp f m by simp
  have bound: "\<forall>(modality_name, sec) \<in> set data_param. \<forall>csv.
              fs (csv_file sec) = Some csv \<longrightarrow> length (df_rows fl) \<le> length (csv_rows csv)"
    using all le f dp by (auto simp: read_csv_rows)
  from loop dd kk bound show ?thesis by blast
qed

text \<open>
  Claim C5 as stated fails: the inner join pairs every row of one manifest with every
  row of the other that has the same subject id. Two manifests of two rows each, all
  for one subject, give a joint table of four rows. A warning is logged only when the
  number of rows changes: in the corpus of two subjects the row of \<open>s3\<close> in
  \<open>seg.csv\<close> is dropped and no warning is logged. And rows that cannot match are not
  always dropped: when the ids of one manifest are integers and those of the other are
  strings, the merge raises \<open>ValueError\<close>.
\<close>

theorem merge_rows_duplicate_ids_counterexample:
  "duplicate_fs ''a.csv''
     = Some (ObjectIds [(''s1'', StrCell ''a1.nii''), (''s1'', StrCell ''a1_repeat.nii'')]) \<and>
   duplicate_fs ''b.csv''
     = Some (ObjectIds [(''s1'', StrCell ''b1.nii''), (''s1'', StrCell ''b1_repeat.nii'')]) \<and>
   load_and_merge_csv_files duplicate_fs two_manifests
     = Inr (\<lparr>df_key_dtype = np_object, df_columns = [''A'', ''B''],
             df_rows = [(StrCell ''s1'', [StrCell ''a1.nii'', StrCell ''b1.nii'']),
                        (StrCell ''s1'', [StrCell ''a1.nii'', StrCell ''b1_repeat.nii'']),
                        (StrCell ''s1'', [StrCell ''a1_repeat.nii'', StrCell ''b1.nii'']),
                        (StrCell ''s1'', [StrCell ''a1_repeat.nii'', StrCell ''b1_repeat.nii''])]\<rparr>,
            [''b.csv'']) \<and>
   \<not> length [(StrCell ''s1'', [StrCell ''a1.nii'', StrCell ''b1.nii'']),
             (StrCell ''s1'', [StrCell ''a1.nii'', StrCell ''b1_repeat.nii'']),
             (StrCell ''s1'', [StrCell ''a1_repeat.nii'', StrCell ''b1.nii'']),
             (StrCell ''s1'', [StrCell ''a1_repeat.nii'', StrCell ''b1_repeat.nii''])]
       \<le> min (length [(''s1'', StrCell ''a1.nii''), (''s1'', StrCell ''a1_repeat.nii'')])
              (length [(''s1'', StrCell ''b1.nii''), (''s1'', StrCell ''b1_repeat.nii'')]) \<and>
   example_fs ''seg.csv''
     = Some (ObjectIds [(''s1'', StrCell ''l1.nii''), (''s2'', StrCell ''l2.nii''),
                        (''s3'', StrCell ''l3.nii'')]) \<and>
   load_and_merge_csv_files example_fs example_data_param
     = Inr (\<lparr>df_key_dtype = np_object, df_columns = [''T1'', ''seg''],
             df_rows = [(StrCell ''s1'', [StrCell ''a1.nii'', StrCell ''l1.nii'']),
                        (StrCell ''s2'', [StrCell ''a2.nii'', StrCell ''l2.nii''])]\<rparr>,
            []) \<and>
   clash_fs ''a.csv'' = Some (Int64Ids [(1, StrCell ''a1.nii'')]) \<and>
   clash_fs ''b.csv'' = Some (ObjectIds [(''s1'', StrCell ''b1.nii'')]) \<and>
   load_and_merge_csv_files clash_fs two_manifests = Inl ValueError"
  by (simp add: duplicate_fs_def clash_fs_def two_manifests_def load_and_merge_csv_files_def
        read_csv_def pandas_merge_def df_size_def example_fs_def example_data_param_def)

text \<open>
  Claim C5, amended. For manifests (at least one) whose csv files exist, whose
  \<open>subject_id\<close> columns are read with one type and none of which repeats a subject
  id, the loop ends with a joint table that has at most as many rows as each manifest,
  and the call returns that table with the warnings unless it is empty. At every join
  the table has at most as many rows as before; the join logs one warning, naming its
  csv file, exactly when the table has fewer rows than before, and the warnings logged
  up to a join all stay in the final list.
\<close>

theorem merge_rows_at_most_each_manifest:
  assumes "data_param \<noteq> []"
    and "\<forall>(modality_name, sec) \<in> set data_param.
           \<exists>csv. fs (csv_file sec) = Some csv \<and> key_dtype csv = t \<and>
                 distinct (map fst (csv_rows csv))"
  shows "\<exists>file_list warnings.
           merge_loop fs data_param None [] = Inr (Some file_list, warnings) \<and>
           load_and_merge_csv_files fs data_param
             = (if df_rows file_list = [] then Inl IOError else Inr (file_list, warnings)) \<and>
           (\<forall>(modality_name, sec) \<in> set data_param. \<forall>csv.
              fs (csv_file sec) = Some csv \<longrightarrow> length (df_rows file_list) \<le> length (csv_rows csv)) \<and>
           (\<forall>pre modality_name sec post.
              data_param = pre @ (modality_name, sec) # post \<and> pre \<noteq> [] \<longrightarrow>
              (\<exists>fl ws fl' later.
                 merge_loop fs pre None [] = Inr (Some fl, ws) \<and>
                 merge_loop fs (pre @ [(modality_name, sec)]) None []
                   = Inr (Some fl', if length (df_rows fl') < length (df_rows fl)
                                    then ws @ [csv_file sec] else ws) \<and>
                 length (df_rows fl') \<le> length (df_rows fl) \<and>
                 warnings = (if length (df_rows fl') < length (df_rows fl)
                             then ws @ [csv_file sec] else ws) @ later))"
proof -
  from merge_loop_from_none[OF assms] obtain file_list warnings where
    loop: "merge_loop fs data_param None [] = Inr (Some file_list, warnings)"
    and bound: "\<forall>(modality_name, sec) \<in> set data_param. \<forall>csv.
               fs (csv_file sec) = Some csv \<longrightarrow> length (df_rows file_list) \<le> length (csv_rows csv)"
    by blast
  from loop have res: "load_and_merge_csv_files fs data_param
             = (if df_rows file_list = [] then Inl IOError else Inr (file_list, warnings))"
    by (simp add: load_and_merge_csv_files_def df_size_def)
  have joins: "\<exists>fl ws fl' later.
                 merge_loop fs pre None [] = Inr (Some fl, ws) \<and>
                 merge_loop fs (pre @ [(modality_name, sec)]) None []
                   = Inr (Some fl', if length (df_rows fl') < length (df_rows fl)
                                    then ws @ [csv_file sec] else ws) \<and>
                 length (df_rows fl') \<le> length (df_rows fl) \<and>
                 warnings = (if length (df_rows fl') < length (df_rows fl)
                             then ws @ [csv_file sec] else ws) @ later"
    if dp: "data_param = pre @ (modality_name, sec) # post" and ne: "pre \<noteq> []"
    for pre modality_name sec post
  proof -
    from assms(2) dp have p: "\<forall>(modality_name, sec) \<in> set pre.
           \<exists>csv. fs (csv_file sec) = Some csv \<and> key_dtype csv = t \<and>
                 distinct (map fst (csv_rows csv))"
      and q: "\<forall>(modality_name, sec) \<in> set post.
           \<exists>csv. fs (csv_file sec) = Some csv \<and> key_dtype csv = t \<and>
                 distinct (map fst (csv_rows csv))"
      by auto
    from assms(2) dp obtain csv where
      f: "fs (csv_file sec) = Some csv" and k: "key_dtype csv = t"
      and d: "distinct (map fst (csv_rows csv))"
      by auto
    from merge_loop_from_none[OF ne p] obtain fl ws where
      m0: "merge_loop fs pre None [] = Inr (Some fl, ws)"
      and d0: "distinct (map fst (df_rows fl))" and k0: "df_key_dtype fl = t"
      by blast
    let ?ws = "\<lambda>fl1. if length (df_rows fl1) < length (df_rows fl) then ws @ [csv_file sec] else ws"
    from merge_step[where fs = fs and sec = sec and modality_name = modality_name and ws = ws,
           OF f k d d0 k0] obtain fl' where
      s: "merge_loop fs [(modality_name, sec)] (Some fl) ws = Inr (Some fl', ?ws fl')"
      and d1: "distinct (map fst (df_rows fl'))" and k1: "df_key_dtype fl' = t"
      and l1: "length (df_rows fl') \<le> length (df_rows fl)"
      by blast
    have m1: "merge_loop fs (pre @ [(modality_name, sec)]) None [] = Inr (Some fl', ?ws fl')"
      unfolding merge_loop_append using m0 s by simp
    from merge_loop_distinct[OF q d1 k1, of "?ws fl'"] obtain fl'' later where
      m2: "merge_loop fs post (Some fl') (?ws fl') = Inr (Some fl'', ?ws fl' @ later)"
      by blast
    have "merge_loop fs data_param None []
            = merge_loop fs ((pre @ [(modality_name, sec)]) @ post) None []"
      by (simp add: dp)
    also have "\<dots> = Inr (Some fl'', ?ws fl' @ later)"
      unfolding merge_loop_append[of fs "pre @ [(modality_name, sec)]"] using m1 m2 by simp
    finally have "warnings = ?ws fl' @ later" using loop by simp
    with m0 m1 l1 show ?thesis by blast
  qed
  from loop res bound joins show ?thesis by blast
qed

theorem merge_rows_at_most_each_manifest_witness:
  "four_manifests \<noteq> [] \<and>
   overlap_fs ''a.csv'' = Some (Int64Ids [(1, StrCell ''a1''), (2, StrCell ''a2''), (3, StrCell ''a3'')]) \<and>
   overlap_fs ''b.csv'' = Some (Int64Ids [(2, StrCell ''b2''), (3, StrCell ''b3''), (4, StrCell ''b4'')]) \<and>
   overlap_fs ''c.csv'' = Some (Int64Ids [(3, StrCell ''c3''), (5, StrCell ''c5'')]) \<and>
   overlap_fs ''d.csv'' = Some (Int64Ids [(3, StrCell ''d3''), (9, StrCell ''d9'')]) \<and>
   distinct [1, 2, 3 :: int] \<and> distinct [2, 3, 4 :: int] \<and>
   distinct [3, 5 :: int] \<and> distinct [3, 9 :: int] \<and>
   load_and_merge_csv_files overlap_fs four_manifests
     = Inr (\<lparr>df_key_dtype = np_int64, df_columns = [''A'', ''B'', ''C'', ''D''],
             df_rows = [(IntCell 3, [StrCell ''a3'', StrCell ''b3'', StrCell ''c3'', StrCell ''d3''])]\<rparr>,
            [''b.csv'', ''c.csv'']) \<and>
   merge_loop overlap_fs (take 1 four_manifests) None []
     = Inr (Some \<lparr>df_key_dtype = np_int64, df_columns = [''A''],
                  df_rows = [(IntCell 1, [StrCell ''a1'']), (IntCell 2, [StrCell ''a2'']),
                             (IntCell 3, [StrCell ''a3''])]\<rparr>, []) \<and>
   merge_loop overlap_fs (take 2 four_manifests) None []
     = Inr (Some \<lparr>df_key_dtype = np_int64, df_columns = [''A'', ''B''],
                  df_rows = [(IntCell 2, [StrCell ''a2'', StrCell ''b2'']),
                             (IntCell 3, [StrCell ''a3'', StrCell ''b3''])]\<rparr>, [''b.csv'']) \<and>
   merge_loop overlap_fs (take 3 four_manifests) None []
     = Inr (Some \<lparr>df_key_dtype = np_int64, df_columns = [''A'', ''B'', ''C''],
                  df_rows = [(IntCell 3, [StrCell ''a3'', StrCell ''b3'', StrCell ''c3''])]\<rparr>,
            [''b.csv'', ''c.csv'']) \<and>
   length [(IntCell 3, [StrCell ''a3'', StrCell ''b3'', StrCell ''c3'', StrCell ''d3''])]
     \<le> length [(3 :: int, StrCell ''c3''), (5, StrCell ''c5'')]"
proof -
  have ne: "four_manifests \<noteq> []" by (simp add: four_manifests_def)
  have a: "overlap_fs ''a.csv'' = Some (Int64Ids [(1, StrCell ''a1''), (2, StrCell ''a2''), (3, StrCell ''a3'')])"
    and b: "overlap_fs ''b.csv'' = Some (Int64Ids [(2, StrCell ''b2''), (3, StrCell ''b3''), (4, StrCell ''b4'')])"
    and c: "overlap_fs ''c.csv'' = Some (Int64Ids [(3, StrCell ''c3''), (5, StrCell ''c5'')])"
    and d: "overlap_fs ''d.csv'' = Some (Int64Ids [(3, StrCell ''d3''), (9, StrCell ''d9'')])"
    by (simp_all add: overlap_fs_def)
  have hyp: "\<forall>(modality_name, sec) \<in> set four_manifests.
           \<exists>csv. overlap_fs (csv_file sec) = Some csv \<and> key_dtype csv = np_int64 \<and>
                 distinct (map fst (csv_rows csv))"
    by (simp add: four_manifests_def a b c d)
  have ev: "load_and_merge_csv_files overlap_fs four_manifests
     = Inr (\<lparr>df_key_dtype = np_int64, df_columns = [''A'', ''B'', ''C'', ''D''],
             df_rows = [(IntCell 3, [StrCell ''a3'', StrCell ''b3'', StrCell ''c3'', StrCell ''d3''])]\<rparr>,
            [''b.csv'', ''c.csv''])"
    by (simp add: overlap_fs_def four_manifests_def load_and_merge_csv_files_def
        read_csv_def pandas_merge_def df_size_def)
  have s1: "merge_loop overlap_fs (take 1 four_manifests) None []
     = Inr (Some \<lparr>df_key_dtype = np_int64, df_columns = [''A''],
                  df_rows = [(IntCell 1, [StrCell ''a1'']), (IntCell 2, [StrCell ''a2'']),
                             (IntCell 3, [StrCell ''a3''])]\<rparr>, [])"
    by (simp add: overlap_fs_def four_manifests_def read_csv_def pandas_merge_def)
  have s2: "merge_loop overlap_fs (take 2 four_manifests) None []
     = Inr (Some \<lparr>df_key_dtype = np_int64, df_columns = [''A'', ''B''],
                  df_rows = [(IntCell 2, [StrCell ''a2'', StrCell ''b2'']),
                             (IntCell 3, [StrCell ''a3'', StrCell ''b3''])]\<rparr>, [''b.csv''])"
    by (simp add: overlap_fs_def four_manifests_def read_csv_def pandas_merge_def)
  have s3: "merge_loop overlap_fs (take 3 four_manifests) None []
     = Inr (Some \<lparr>df_key_dtype = np_int64, df_columns = [''A'', ''B'', ''C''],
                  df_rows = [(IntCell 3, [StrCell ''a3'', StrCell ''b3'', StrCell ''c3''])]\<rparr>,
            [''b.csv'', ''c.csv''])"
    by (simp add: overlap_fs_def four_manifests_def read_csv_def pandas_merge_def)
  from merge_rows_at_most_each_manifest[OF ne hyp] obtain file_list warnings where
    res: "load_and_merge_csv_files overlap_fs four_manifests
             = (if df_rows file_list = [] then Inl IOError else Inr (file_list, warnings))"
    and bound: "\<forall>(modality_name, sec) \<in> set four_manifests. \<forall>csv.
         overlap_fs (csv_file sec) = Some csv \<longrightarrow> length (df_rows file_list) \<le> length (csv_rows csv)"
    by blast
  from res ev have fl: "file_list = \<lparr>df_key_dtype = np_int64, df_columns = [''A'', ''B'', ''C'', ''D''],
             df_rows = [(IntCell 3, [StrCell ''a3'', StrCell ''b3'', StrCell ''c3'', StrCell ''d3''])]\<rparr>"
    by (simp split: if_splits)
  from bound fl c have
    "length [(IntCell 3, [StrCell ''a3'', StrCell ''b3'', StrCell ''c3'', StrCell ''d3''])]
       \<le> length [(3 :: int, StrCell ''c3''), (5, StrCell ''c5'')]"
    by (simp add: four_manifests_def)
  with ne a b c d ev s1 s2 s3 show ?thesis by simp
qed

section \<open>The cached properties\<close>

lemma tuple_of_Inr:
  "tuple_of f xs = Inr ys \<Longrightarrow> list_all2 (\<lambda>x y. f x = Inr y) xs ys"
  by (induction xs arbitrary: ys) (auto split: sum.splits)

lemma tuple_of_total:
  "\<forall>x \<in> set xs. \<exists>y. f x = Inr y \<Longrightarrow> \<exists>ys. tuple_of f xs = Inr ys"
  by (induction xs) (auto split: sum.splits)

lemma foldl_update_map_of:
  "map_of (foldl (\<lambda>d x. AList.update (fst (f x)) (snd (f x)) d) d0 xs) k = Some v
     \<Longrightarrow> (k, v) \<in> f ` set xs \<or> map_of d0 k = Some v"
proof (induction xs arbitrary: d0)
  case Nil
  then show ?case by simp
next
  case (Cons x xs)
  from Cons.IH[of "AList.update (fst (f x)) (snd (f x)) d0"] Cons.prems
  have "(k, v) \<in> f ` set xs \<or> map_of (AList.update (fst (f x)) (snd (f x)) d0) k = Some v"
    by simp
  then show ?case
    by (auto simp: AList.update_conv' split: if_splits intro: rev_image_eqI)
qed

lemma dict_comp_lookup:
  assumes "k \<in> fst ` set entries"
  shows "\<exists>v. map_of (dict_comp (\<lambda>entry. entry) entries) k = Some v \<and> (k, v) \<in> set entries"
proof -
  from assms have "k \<in> dict_keys (dict_comp (\<lambda>entry. entry) entries)"
    by (simp add: dict_keys_dict_comp)
  then obtain v where v: "map_of (dict_comp (\<lambda>entry. entry) entries) k = Some v"
    by (cases "map_of (dict_comp (\<lambda>entry. entry) entries) k")
       (auto simp: dict_keys_def map_of_eq_None_iff)
  from foldl_update_map_of[of "\<lambda>entry. entry" "[]" entries k v] v
  have "(k, v) \<in> set entries" by (simp add: dict_comp_def)
  with v show ?thesis by blast
qed

lemma py_not_False: "\<not> py_not x \<longleftrightarrow> (\<exists>a rest. x = Some (a # rest))"
  by (auto simp: py_not_def neq_Nil_conv split: option.splits)

lemma shapes_not_initialised:
  "py_not (output_list self) \<Longrightarrow> shapes self = (Inl RuntimeError, self)"
  by (simp add: shapes_def)

lemma tf_dtypes_not_initialised:
  "py_not (output_list self) \<Longrightarrow> tf_dtypes self = (Inl RuntimeError, self)"
  by (simp add: tf_dtypes_def)

lemma shapes_cached:
  "\<not> py_not (output_list self) \<Longrightarrow> self_shapes self = Some d \<Longrightarrow> d \<noteq> []
     \<Longrightarrow> shapes self = (Inr d, self)"
  by (simp add: shapes_def py_not_def)

lemma tf_dtypes_cached:
  "\<not> py_not (output_list self) \<Longrightarrow> self_dtypes self = Some d \<Longrightarrow> d \<noteq> []
     \<Longrightarrow> tf_dtypes self = (Inr d, self)"
  by (simp add: tf_dtypes_def py_not_def)

lemma shapes_twice: "shapes (snd (shapes self)) = shapes self"
proof (cases "py_not (output_list self) \<or> \<not> py_not (self_shapes self)")
  case True
  then show ?thesis
    by (auto simp: shapes_def py_not_def split: option.splits list.splits)
next
  case False
  then obtain first_image rest where ol: "output_list self = Some (first_image # rest)"
    by (auto simp: py_not_False)
  let ?t = "tuple_of (\<lambda>field.
                       (case dict_getitem first_image field of
                          Inl e \<Rightarrow> Inl e
                        | Inr img \<Rightarrow> Inr (field, shape img))) (self_names self)"
  show ?thesis
  proof (cases ?t)
    case (Inl e)
    with False ol show ?thesis by (simp add: shapes_def py_not_def)
  next
    case (Inr entries)
    let ?d = "dict_comp (\<lambda>entry. entry) entries"
    let ?s = "self\<lparr>self_shapes := Some ?d\<rparr>"
    from False ol Inr have 1: "shapes self = (Inr ?d, ?s)"
      by (simp add: shapes_def py_not_def Let_def)
    have "shapes ?s = (Inr ?d, ?s)"
      using ol Inr by (simp add: shapes_def py_not_def Let_def)
    with 1 show ?thesis by simp
  qed
qed

lemma tf_dtypes_twice: "tf_dtypes (snd (tf_dtypes self)) = tf_dtypes self"
proof (cases "py_not (output_list self) \<or> \<not> py_not (self_dtypes self)")
  case True
  then show ?thesis
    by (auto simp: tf_dtypes_def py_not_def split: option.splits list.splits)
next
  case False
  then obtain first_image rest where ol: "output_list self = Some (first_image # rest)"
    by (auto simp: py_not_False)
  let ?t = "tuple_of (\<lambda>field.
                       (case dict_getitem first_image field of
                          Inl e \<Rightarrow> Inl e
                        | Inr img \<Rightarrow>
                            (case infer_tf_dtypes img of
                               Inl e \<Rightarrow> Inl e
                             | Inr t \<Rightarrow> Inr (field, t)))) (self_names self)"
  show ?thesis
  proof (cases ?t)
    case (Inl e)
    with False ol show ?thesis by (simp add: tf_dtypes_def py_not_def)
  next
    case (Inr entries)
    let ?d = "dict_comp (\<lambda>entry. entry) entries"
    let ?s = "self\<lparr>self_dtypes := Some ?d\<rparr>"
    from False ol Inr have 1: "tf_dtypes self = (Inr ?d, ?s)"
      by (simp add: tf_dtypes_def py_not_def Let_def)
    have "tf_dtypes ?s = (Inr ?d, ?s)"
      using ol Inr by (simp add: tf_dtypes_def py_not_def Let_def)
    with 1 show ?thesis by simp
  qed
qed

lemma list_all2_set1: "list_all2 P xs ys \<Longrightarrow> \<forall>x \<in> set xs. \<exists>y \<in> set ys. P x y"
  by (induction rule: list_all2_induct) auto

lemma list_all2_set2: "list_all2 P xs ys \<Longrightarrow> \<forall>y \<in> set ys. \<exists>x \<in> set xs. P x y"
  by (induction rule: list_all2_induct) auto

lemma cached_entries:
  assumes "tuple_of (\<lambda>field.
              (case dict_getitem first_image field of
                 Inl e \<Rightarrow> Inl e
               | Inr img \<Rightarrow> (case G img of Inl e \<Rightarrow> Inl e | Inr t \<Rightarrow> Inr (field, t)))) names
           = Inr entries"
  shows "\<forall>field \<in> set names. \<exists>img t. map_of first_image field = Some img \<and> G img = Inr t \<and>
            map_of (dict_comp (\<lambda>entry. entry) entries) field = Some t"
    and "names \<noteq> [] \<longrightarrow> dict_comp (\<lambda>entry. entry) entries \<noteq> []"
proof -
  let ?F = "\<lambda>field.
              (case dict_getitem first_image field of
                 Inl e \<Rightarrow> Inl e
               | Inr img \<Rightarrow> (case G img of Inl e \<Rightarrow> Inl e | Inr t \<Rightarrow> Inr (field, t)))"
  from tuple_of_Inr[OF assms] have l: "list_all2 (\<lambda>x y. ?F x = Inr y) names entries" .
  have F: "\<exists>img. map_of first_image x = Some img \<and> G img = Inr v \<and> k = x" if "?F x = Inr (k, v)" for x k v
    using that by (auto simp: dict_getitem_def split: option.splits sum.splits)
  show "\<forall>field \<in> set names. \<exists>img t. map_of first_image field = Some img \<and> G img = Inr t \<and>
            map_of (dict_comp (\<lambda>entry. entry) entries) field = Some t"
  proof
    fix field assume "field \<in> set names"
    with list_all2_set1[OF l] obtain e where e: "e \<in> set entries" "?F field = Inr e" by blast
    obtain k v where kv: "e = (k, v)" by (cases e)
    from e kv have "?F field = Inr (k, v)" by simp
    from F[OF this] have "k = field" by blast
    with e kv have "field \<in> fst ` set entries" by force
    from dict_comp_lookup[OF this] obtain t where
      t: "map_of (dict_comp (\<lambda>entry. entry) entries) field = Some t" "(field, t) \<in> set entries"
      by blast
    from list_all2_set2[OF l] t(2) obtain x where "x \<in> set names" "?F x = Inr (field, t)"
      by blast
    from F[OF this(2)] obtain img where "map_of first_image field = Some img" "G img = Inr t"
      by auto
    with t(1) show "\<exists>img t. map_of first_image field = Some img \<and> G img = Inr t \<and>
            map_of (dict_comp (\<lambda>entry. entry) entries) field = Some t" by blast
  qed
  show "names \<noteq> [] \<longrightarrow> dict_comp (\<lambda>entry. entry) entries \<noteq> []"
  proof
    assume "names \<noteq> []"
    with l have "entries \<noteq> []" by (auto simp: list_all2_Nil2)
    then have "dict_keys (dict_comp (\<lambda>entry. entry) entries) \<noteq> {}"
      by (simp add: dict_keys_dict_comp)
    then show "dict_comp (\<lambda>entry. entry) entries \<noteq> []"
      by (auto simp: dict_keys_def)
  qed
qed

lemma initialised_first_record:
  assumes "initialised self" "output_list self = Some (first_image # rest)"
  shows "self_names self \<noteq> []"
    and "\<forall>field \<in> set (self_names self). \<exists>img. map_of first_image field = Some img"
proof -
  from assms show "self_names self \<noteq> []" by (simp add: initialised_def)
  from assms have "dict_keys first_image = set (self_names self)"
    by (simp add: initialised_def)
  then show "\<forall>field \<in> set (self_names self). \<exists>img. map_of first_image field = Some img"
    by (metis dict_keys_def map_of_eq_None_iff not_Some_eq)
qed

lemma shapes_computed:
  assumes "initialised self" "output_list self = Some (first_image # rest)"
    and "py_not (self_shapes self)"
  shows "\<exists>d. shapes self = (Inr d, self\<lparr>self_shapes := Some d\<rparr>) \<and> d \<noteq> [] \<and>
           (\<forall>field \<in> set (self_names self). \<exists>img.
               map_of first_image field = Some img \<and> map_of d field = Some (shape img))"
proof -
  let ?F = "\<lambda>field.
              (case dict_getitem first_image field of
                 Inl e \<Rightarrow> Inl e
               | Inr img \<Rightarrow> Inr (field, shape img))"
  from initialised_first_record(2)[OF assms(1,2)]
  have "\<forall>field \<in> set (self_names self). \<exists>y. ?F field = Inr y"
    by (auto simp: dict_getitem_def)
  from tuple_of_total[OF this] obtain entries where t: "tuple_of ?F (self_names self) = Inr entries"
    by blast
  let ?d = "dict_comp (\<lambda>entry. entry) entries"
  from t assms(2,3) have 1: "shapes self = (Inr ?d, self\<lparr>self_shapes := Some ?d\<rparr>)"
    by (simp add: shapes_def py_not_def Let_def)
  from t have t': "tuple_of (\<lambda>field.
              (case dict_getitem first_image field of
                 Inl e \<Rightarrow> Inl e
               | Inr img \<Rightarrow> (case Inr (shape img) of Inl e \<Rightarrow> Inl e | Inr t \<Rightarrow> Inr (field, t))))
           (self_names self) = Inr entries"
    by (simp cong: sum.case_cong)
  from cached_entries[where G = "\<lambda>img. Inr (shape img)", OF t']
       initialised_first_record(1)[OF assms(1,2)]
  have "?d \<noteq> []"
    and "\<forall>field \<in> set (self_names self). \<exists>img.
               map_of first_image field = Some img \<and> map_of ?d field = Some (shape img)"
    by auto
  with 1 show ?thesis by blast
qed

lemma tf_dtypes_computed:
  assumes "initialised self" "output_list self = Some (first_image # rest)"
    and "py_not (self_dtypes self)"
    and "\<forall>(field, img) \<in> set first_image. dtype img \<noteq> []"
  shows "\<exists>d. tf_dtypes self = (Inr d, self\<lparr>self_dtypes := Some d\<rparr>) \<and> d \<noteq> [] \<and>
           (\<forall>field \<in> set (self_names self). \<exists>img t.
               map_of first_image field = Some img \<and> infer_tf_dtypes img = Inr t \<and>
               map_of d field = Some t)"
proof -
  let ?F = "\<lambda>field.
              (case dict_getitem first_image field of
                 Inl e \<Rightarrow> Inl e
               | Inr img \<Rightarrow> (case infer_tf_dtypes img of
                               Inl e \<Rightarrow> Inl e
                             | Inr t \<Rightarrow> Inr (field, t)))"
  have "\<exists>y. ?F field = Inr y" if "field \<in> set (self_names self)" for field
  proof -
    from initialised_first_record(2)[OF assms(1,2)] that
    obtain img where img: "map_of first_image field = Some img" by blast
    then have "(field, img) \<in> set first_image" by (rule map_of_SomeD)
    with assms(4) have "dtype img \<noteq> []" by auto
    then obtain t where "infer_tf_dtypes img = Inr t"
      by (cases "dtype img") (auto simp: infer_tf_dtypes_def)
    with img show ?thesis by (simp add: dict_getitem_def)
  qed
  then have "\<forall>field \<in> set (self_names self). \<exists>y. ?F field = Inr y" by blast
  from tuple_of_total[OF this] obtain entries where t: "tuple_of ?F (self_names self) = Inr entries"
    by blast
  let ?d = "dict_comp (\<lambda>entry. entry) entries"
  from t assms(2,3) have 1: "tf_dtypes self = (Inr ?d, self\<lparr>self_dtypes := Some ?d\<rparr>)"
    by (simp add: tf_dtypes_def py_not_def Let_def)
  from cached_entries[where G = infer_tf_dtypes, OF t]
       initialised_first_record(1)[OF assms(1,2)]
  have "?d \<noteq> []"
    and "\<forall>field \<in> set (self_names self). \<exists>img t.
               map_of first_image field = Some img \<and> infer_tf_dtypes img = Inr t \<and>
               map_of ?d field = Some t"
    by auto
  with 1 show ?thesis by blast
qed

text \<open>
  Claim C8. On a reader whose image list is \<open>None\<close> or empty, \<open>shapes\<close> and
  \<open>tf_dtypes\<close> raise \<open>RuntimeError\<close>. A second call of either property returns
  what the first call returned and leaves the reader as the first call left it. A
  cached dictionary that is not empty is returned as it is, whatever the image list
  holds by then. On an initialised reader with nothing cached, \<open>shapes\<close> returns and
  caches the dictionary that gives every field name the shape of that field's image in
  record 0, and so does \<open>tf_dtypes\<close> with the inferred types when the images of
  record 0 have a dtype.
\<close>

theorem shapes_and_tf_dtypes_cached:
  "(py_not (output_list self) \<longrightarrow>
      shapes self = (Inl RuntimeError, self) \<and> tf_dtypes self = (Inl RuntimeError, self)) \<and>
   shapes (snd (shapes self)) = shapes self \<and>
   tf_dtypes (snd (tf_dtypes self)) = tf_dtypes self \<and>
   (\<forall>d. \<not> py_not (output_list self) \<and> self_shapes self = Some d \<and> d \<noteq> [] \<longrightarrow>
      shapes self = (Inr d, self)) \<and>
   (\<forall>d. \<not> py_not (output_list self) \<and> self_dtypes self = Some d \<and> d \<noteq> [] \<longrightarrow>
      tf_dtypes self = (Inr d, self)) \<and>
   (\<forall>first_image rest.
      initialised self \<and> output_list self = Some (first_image # rest) \<and>
      py_not (self_shapes self) \<longrightarrow>
      (\<exists>d. shapes self = (Inr d, self\<lparr>self_shapes := Some d\<rparr>) \<and> d \<noteq> [] \<and>
           (\<forall>field \<in> set (self_names self). \<exists>img.
               map_of first_image field = Some img \<and> map_of d field = Some (shape img)))) \<and>
   (\<forall>first_image rest.
      initialised self \<and> output_list self = Some (first_image # rest) \<and>
      py_not (self_dtypes self) \<and> (\<forall>(field, img) \<in> set first_image. dtype img \<noteq> []) \<longrightarrow>
      (\<exists>d. tf_dtypes self = (Inr d, self\<lparr>self_dtypes := Some d\<rparr>) \<and> d \<noteq> [] \<and>
           (\<forall>field \<in> set (self_names self). \<exists>img t.
               map_of first_image field = Some img \<and> infer_tf_dtypes img = Inr t \<and>
               map_of d field = Some t)))"
  using shapes_not_initialised[of self] tf_dtypes_not_initialised[of self]
        shapes_twice[of self] tf_dtypes_twice[of self]
        shapes_cached[of self] tf_dtypes_cached[of self]
        shapes_computed[of self] tf_dtypes_computed[of self]
  by (intro conjI allI impI) blast+

theorem shapes_and_tf_dtypes_cached_witness:
  "py_not (output_list (ImageReader [''image''] :: (string list, unit, nat) image_reader)) \<and>
   shapes (ImageReader [''image''] :: (string list, unit, nat) image_reader)
     = (Inl RuntimeError, ImageReader [''image'']) \<and>
   tf_dtypes (ImageReader [''image''] :: (string list, unit, nat) image_reader)
     = (Inl RuntimeError, ImageReader [''image'']) \<and>
   initialised example_reader \<and>
   py_not (self_shapes example_reader) \<and> py_not (self_dtypes example_reader) \<and>
   shapes example_reader
     = (Inr [(''image'', [2, 2, 3]), (''label'', [2, 2, 3])],
        example_reader\<lparr>self_shapes := Some [(''image'', [2, 2, 3]), (''label'', [2, 2, 3])]\<rparr>) \<and>
   shapes (example_reader\<lparr>self_shapes := Some [(''image'', [2, 2, 3]), (''label'', [2, 2, 3])]\<rparr>)
     = (Inr [(''image'', [2, 2, 3]), (''label'', [2, 2, 3])],
        example_reader\<lparr>self_shapes := Some [(''image'', [2, 2, 3]), (''label'', [2, 2, 3])]\<rparr>) \<and>
   tf_dtypes example_reader
     = (Inr [(''image'', tf_float32), (''label'', tf_float32)],
        example_reader\<lparr>self_dtypes := Some [(''image'', tf_float32), (''label'', tf_float32)]\<rparr>) \<and>
   tf_dtypes (example_reader\<lparr>self_dtypes := Some [(''image'', tf_float32), (''label'', tf_float32)]\<rparr>)
     = (Inr [(''image'', tf_float32), (''label'', tf_float32)],
        example_reader\<lparr>self_dtypes := Some [(''image'', tf_float32), (''label'', tf_float32)]\<rparr>)"
proof -
  let ?u = "ImageReader [''image''] :: (string list, unit, nat) image_reader"
  have u: "py_not (output_list ?u)" by (simp add: ImageReader_def py_not_def)
  from shapes_and_tf_dtypes_cached[of ?u] u
  have 1: "shapes ?u = (Inl RuntimeError, ?u)" "tf_dtypes ?u = (Inl RuntimeError, ?u)"
    by simp_all
  have i: "initialised example_reader"
    by (simp add: example_reader_eq initialised_def dict_keys_def)
  have c: "py_not (self_shapes example_reader)" "py_not (self_dtypes example_reader)"
    by (simp_all add: example_reader_eq py_not_def)
  have s: "shapes example_reader
     = (Inr [(''image'', [2, 2, 3]), (''label'', [2, 2, 3])],
        example_reader\<lparr>self_shapes := Some [(''image'', [2, 2, 3]), (''label'', [2, 2, 3])]\<rparr>)"
    by (simp add: example_reader_eq shapes_def py_not_def dict_getitem_def dict_comp_def Let_def)
  have t: "tf_dtypes example_reader
     = (Inr [(''image'', tf_float32), (''label'', tf_float32)],
        example_reader\<lparr>self_dtypes := Some [(''image'', tf_float32), (''label'', tf_float32)]\<rparr>)"
    by (simp add: example_reader_eq tf_dtypes_def py_not_def dict_getitem_def dict_comp_def
          infer_tf_dtypes_def Let_def)
  from shapes_and_tf_dtypes_cached[of example_reader]
  have "shapes (snd (shapes example_reader)) = shapes example_reader"
    "tf_dtypes (snd (tf_dtypes example_reader)) = tf_dtypes example_reader"
    by simp_all
  with s t have 2:
    "shapes (example_reader\<lparr>self_shapes := Some [(''image'', [2, 2, 3]), (''label'', [2, 2, 3])]\<rparr>)
     = (Inr [(''image'', [2, 2, 3]), (''label'', [2, 2, 3])],
        example_reader\<lparr>self_shapes := Some [(''image'', [2, 2, 3]), (''label'', [2, 2, 3])]\<rparr>)"
    "tf_dtypes (example_reader\<lparr>self_dtypes := Some [(''image'', tf_float32), (''label'', tf_float32)]\<rparr>)
     = (Inr [(''image'', tf_float32), (''label'', tf_float32)],
        example_reader\<lparr>self_dtypes := Some [(''image'', tf_float32), (''label'', tf_float32)]\<rparr>)"
    by simp_all
  from u 1 i c s t 2 show ?thesis by blast
qed

section \<open>What initialisation establishes\<close>

text \<open>
  When \<open>initialise_reader\<close> returns, the reader is \<open>initialised\<close>, and its cursor
  and its layers are those it had before: a reader made by \<open>ImageReader\<close> and then
  initialised has the cursor \<open>-1\<close> and no layers.
\<close>

lemma tuple_of_length: "tuple_of f xs = Inr ys \<Longrightarrow> length ys = length xs"
  by (induction xs arbitrary: ys) (auto split: sum.splits)

lemma record_fields:
  assumes "tuple_of (\<lambda>(field, modalities).
                   (case h field modalities of
                      Inl e \<Rightarrow> Inl e
                    | Inr img \<Rightarrow> Inr (field, img))) mod_dict = Inr entries"
  shows "map fst entries = map fst mod_dict"
  using assms
  by (induction mod_dict arbitrary: entries) (auto split: sum.splits prod.splits)

lemma filename_to_image_list_fields:
  assumes "filename_to_image_list create_instance file_list mod_dict data_param = Inr volume_list"
  shows "length volume_list = length (df_rows file_list)"
    and "\<forall>image_dict \<in> set volume_list. dict_keys image_dict = dict_keys mod_dict"
proof -
  let ?R = "\<lambda>idx.
         (case tuple_of (\<lambda>(field, modalities).
                   (case create_image create_instance file_list idx modalities data_param of
                      Inl e \<Rightarrow> Inl e
                    | Inr img \<Rightarrow> Inr (field, img))) mod_dict of
            Inl e \<Rightarrow> Inl e
          | Inr entries \<Rightarrow> Inr (dict_comp (\<lambda>entry. entry) entries))"
  from assms have t: "tuple_of ?R [0 ..< length (df_rows file_list)] = Inr volume_list"
    by (simp add: filename_to_image_list_def)
  from tuple_of_length[OF t] show "length volume_list = length (df_rows file_list)" by simp
  show "\<forall>image_dict \<in> set volume_list. dict_keys image_dict = dict_keys mod_dict"
  proof
    fix image_dict assume "image_dict \<in> set volume_list"
    with list_all2_set2[OF tuple_of_Inr[OF t]] obtain idx where "?R idx = Inr image_dict"
      by blast
    then obtain entries where
      e: "tuple_of (\<lambda>(field, modalities).
                   (case create_image create_instance file_list idx modalities data_param of
                      Inl e \<Rightarrow> Inl e
                    | Inr img \<Rightarrow> Inr (field, img))) mod_dict = Inr entries"
      and d: "image_dict = dict_comp (\<lambda>entry. entry) entries"
      by (auto split: sum.splits)
    from record_fields[OF e] have "fst ` set entries = fst ` set mod_dict"
      by (metis set_map)
    moreover have "dict_keys image_dict = fst ` set entries"
      by (simp add: d dict_keys_dict_comp)
    ultimately show "dict_keys image_dict = dict_keys mod_dict"
      by (simp add: dict_keys_def)
  qed
qed

lemma initialise_reader_initialised:
  assumes "initialise_reader create_instance fs self data_param task_param = (None, self')"
  shows "initialised self'"
    and "current_id self' = current_id self" and "preprocessors self' = preprocessors self"
proof -
  let ?names = "filter (\<lambda>name. truthy (map_of task_param name)) (self_names self)"
  let ?src = "dict_comp (\<lambda>name. (name, map_of task_param name)) ?names"
  from assms obtain data_to_load file_list warnings volume_list where
    c: "collect_data_to_load data_param ?src ?names [] = Inr data_to_load"
    and m: "load_and_merge_csv_files fs data_to_load = Inr (file_list, warnings)"
    and v: "filename_to_image_list create_instance file_list ?src data_param = Inr volume_list"
    and s: "self' = self\<lparr>self_names := ?names, self_input_sources := Some ?src,
                         self_file_list := Some file_list, output_list := Some volume_list\<rparr>"
    by (auto simp: initialise_reader_def Let_def split: if_splits sum.splits prod.splits)
  from s show "current_id self' = current_id self" "preprocessors self' = preprocessors self"
    by simp_all
  have names: "?names \<noteq> []"
  proof
    assume "?names = []"
    with c have "data_to_load = []" by simp
    with m show False by (simp add: load_and_merge_csv_files_def)
  qed
  from m have "df_rows file_list \<noteq> []"
    by (auto simp: load_and_merge_csv_files_def df_size_def split: sum.splits prod.splits option.splits if_splits)
  with filename_to_image_list_fields(1)[OF v] have ne: "volume_list \<noteq> []" by auto
  have "dict_keys ?src = set ?names"
    by (simp add: dict_keys_dict_comp)
  with filename_to_image_list_fields(2)[OF v]
  have "\<forall>image_dict \<in> set volume_list. dict_keys image_dict = set ?names" by simp
  with names ne s show "initialised self'"
    by (simp add: initialised_def list_all_iff)
qed

end
